theory Spec2Isabelle
  imports Complex_Main "HOL-Library.Monad_Syntax"
begin

section \<open>Tensors\<close>

text \<open>
  A tensor of the array library is a shape (the list of its axis sizes) together with
  the entry stored at each index (a list of coordinates, one for each axis).
\<close>

record 'a tensor =
  shape :: "nat list"
  elem :: "nat list \<Rightarrow> 'a"

definition rank :: "'a tensor \<Rightarrow> nat" where
  \<comment> \<open>\<open>t.dim()\<close>\<close>
  "rank t = length (shape t)"

definition axis :: "nat \<Rightarrow> int \<Rightarrow> nat option" where
  \<comment> \<open>The position of axis \<open>d\<close> in a tensor of rank \<open>r\<close>; a negative axis counts from the
      right, an axis out of range raises.\<close>
  "axis r d =
     (let j = (if d < 0 then int r + d else d)
      in if 0 \<le> j \<and> j < int r then Some (nat j) else None)"

definition size_at :: "'a tensor \<Rightarrow> int \<Rightarrow> nat option" where
  \<comment> \<open>\<open>t.size(d)\<close>\<close>
  "size_at t d = map_option (\<lambda>p. shape t ! p) (axis (rank t) d)"

section \<open>Numbers\<close>

text \<open>
  A tensor entry is a real number or one of the three special values of the floating
  point format. Arithmetic on real entries is exact: rounding, overflow of a finite
  result and the sign of zero are outside this model. The special values follow
  IEEE 754: an undefined result (\<open>0/0\<close>, \<open>\<infinity> - \<infinity>\<close>, \<open>0 * \<infinity>\<close>, the square root or
  logarithm of a negative number) is \<open>NaN\<close>, and \<open>NaN\<close> absorbs every operation.
\<close>

datatype fl = Fin real | PInf | NInf | NaN

definition fl_inf :: "bool \<Rightarrow> fl" where
  "fl_inf pos = (if pos then PInf else NInf)"

instantiation fl :: "{comm_monoid_add, comm_monoid_mult, uminus, minus, inverse}"
begin

definition zero_fl :: fl where "zero_fl = Fin 0"
definition one_fl :: fl where "one_fl = Fin 1"

fun plus_fl :: "fl \<Rightarrow> fl \<Rightarrow> fl" where
  "plus_fl (Fin a) (Fin b) = Fin (a + b)"
| "plus_fl NaN _ = NaN"
| "plus_fl _ NaN = NaN"
| "plus_fl PInf NInf = NaN"
| "plus_fl NInf PInf = NaN"
| "plus_fl PInf _ = PInf"
| "plus_fl _ PInf = PInf"
| "plus_fl NInf _ = NInf"
| "plus_fl _ NInf = NInf"

fun uminus_fl :: "fl \<Rightarrow> fl" where
  "uminus_fl (Fin a) = Fin (- a)"
| "uminus_fl PInf = NInf"
| "uminus_fl NInf = PInf"
| "uminus_fl NaN = NaN"

definition minus_fl :: "fl \<Rightarrow> fl \<Rightarrow> fl" where
  "minus_fl a b = a + (- b)"

fun times_fl :: "fl \<Rightarrow> fl \<Rightarrow> fl" where
  "times_fl (Fin a) (Fin b) = Fin (a * b)"
| "times_fl NaN _ = NaN"
| "times_fl _ NaN = NaN"
| "times_fl (Fin a) PInf = (if a = 0 then NaN else fl_inf (0 < a))"
| "times_fl (Fin a) NInf = (if a = 0 then NaN else fl_inf (a < 0))"
| "times_fl PInf (Fin b) = (if b = 0 then NaN else fl_inf (0 < b))"
| "times_fl NInf (Fin b) = (if b = 0 then NaN else fl_inf (b < 0))"
| "times_fl PInf PInf = PInf"
| "times_fl NInf NInf = PInf"
| "times_fl PInf NInf = NInf"
| "times_fl NInf PInf = NInf"

fun divide_fl :: "fl \<Rightarrow> fl \<Rightarrow> fl" where
  "divide_fl (Fin a) (Fin b) =
     (if b = 0 then (if a = 0 then NaN else fl_inf (0 < a)) else Fin (a / b))"
| "divide_fl NaN _ = NaN"
| "divide_fl _ NaN = NaN"
| "divide_fl (Fin a) _ = Fin 0"
| "divide_fl PInf (Fin b) = fl_inf (0 \<le> b)"
| "divide_fl NInf (Fin b) = fl_inf (b < 0)"
| "divide_fl _ _ = NaN"

definition inverse_fl :: "fl \<Rightarrow> fl" where
  "inverse_fl a = divide (Fin 1) a"

instance
proof
  fix u v w :: fl
  show "0 + u = u"
    by (cases u; simp add: zero_fl_def)
  show "1 * u = u"
    by (cases u; simp add: one_fl_def fl_inf_def)
  show "u + v = v + u"
    by (cases u; cases v; simp)
  show "u * v = v * u"
    by (cases u; cases v; simp add: mult.commute)
  show "u + v + w = u + (v + w)"
    by (cases u; cases v; cases w; simp)
  show "u * v * w = u * (v * w)"
    by (cases u; cases v; cases w; auto simp: fl_inf_def zero_less_mult_iff mult_less_0_iff)
qed

end

definition erf :: "real \<Rightarrow> real" where
  \<comment> \<open>The Gauss error function, by its Maclaurin series.\<close>
  "erf x = 2 / sqrt pi * (\<Sum>n. (- 1) ^ n * x ^ (2 * n + 1) / (fact n * real (2 * n + 1)))"

definition erf_coeff :: "real \<Rightarrow> nat \<Rightarrow> real" where
  \<comment> \<open>The absolute value of the \<open>n\<close>-th term of the series.\<close>
  "erf_coeff x n = x ^ (2 * n + 1) / (fact n * real (2 * n + 1))"

fun fl_sqrt :: "fl \<Rightarrow> fl" where
  "fl_sqrt (Fin a) = (if a < 0 then NaN else Fin (sqrt a))"
| "fl_sqrt PInf = PInf"
| "fl_sqrt NInf = NaN"
| "fl_sqrt NaN = NaN"

fun fl_exp :: "fl \<Rightarrow> fl" where
  "fl_exp (Fin a) = Fin (exp a)"
| "fl_exp PInf = PInf"
| "fl_exp NInf = Fin 0"
| "fl_exp NaN = NaN"

fun fl_log :: "fl \<Rightarrow> fl" where
  "fl_log (Fin a) = (if a < 0 then NaN else if a = 0 then NInf else Fin (ln a))"
| "fl_log PInf = PInf"
| "fl_log NInf = NaN"
| "fl_log NaN = NaN"

fun fl_erf :: "fl \<Rightarrow> fl" where
  "fl_erf (Fin a) = Fin (erf a)"
| "fl_erf PInf = Fin 1"
| "fl_erf NInf = Fin (- 1)"
| "fl_erf NaN = NaN"

definition fl_pow2 :: "fl \<Rightarrow> fl" where
  \<comment> \<open>\<open>torch.pow(x, 2.0)\<close>\<close>
  "fl_pow2 x = x * x"

fun fl_le :: "fl \<Rightarrow> fl \<Rightarrow> bool" where
  "fl_le (Fin a) (Fin b) = (a \<le> b)"
| "fl_le NaN _ = False"
| "fl_le _ NaN = False"
| "fl_le NInf _ = True"
| "fl_le _ PInf = True"
| "fl_le _ _ = False"

definition fl_pos :: "fl \<Rightarrow> bool" where
  \<comment> \<open>\<open>0 < x\<close>, which is false of \<open>NaN\<close>.\<close>
  "fl_pos x \<longleftrightarrow> (case x of Fin a \<Rightarrow> 0 < a | PInf \<Rightarrow> True | _ \<Rightarrow> False)"

definition fl_neg :: "fl \<Rightarrow> bool" where
  \<comment> \<open>\<open>x < 0\<close>, which is false of \<open>NaN\<close>.\<close>
  "fl_neg x \<longleftrightarrow> (case x of Fin a \<Rightarrow> a < 0 | NInf \<Rightarrow> True | _ \<Rightarrow> False)"

definition fl_max :: "fl \<Rightarrow> fl \<Rightarrow> fl" where
  \<comment> \<open>The step of a \<open>max\<close> reduction: a \<open>NaN\<close> on either side wins.\<close>
  "fl_max a b = (if a = NaN \<or> b = NaN then NaN else if fl_le a b then b else a)"


section \<open>Operations of the array library\<close>

text \<open>
  The operations of the array library that the module calls, by their documented
  behaviour. Each is given by the tensor it returns (the functions \<open>..._at\<close>, \<open>..._result\<close>)
  and by the check it makes first: an operation that raises (shapes that do not
  broadcast, an axis out of range, a reduction of an empty axis) returns \<open>None\<close>.
\<close>

fun bshape_rev :: "nat list \<Rightarrow> nat list \<Rightarrow> nat list option" where
  "bshape_rev [] ys = Some ys"
| "bshape_rev xs [] = Some xs"
| "bshape_rev (x # xs) (y # ys) =
     (if x = y \<or> y = 1 then map_option ((#) x) (bshape_rev xs ys)
      else if x = 1 then map_option ((#) y) (bshape_rev xs ys)
      else None)"

definition broadcast_shapes :: "nat list \<Rightarrow> nat list \<Rightarrow> nat list option" where
  \<comment> \<open>Broadcasting aligns the shapes at their last axis; two sizes agree when they are
      equal or one of them is 1.\<close>
  "broadcast_shapes s1 s2 = map_option rev (bshape_rev (rev s1) (rev s2))"

definition bcoord :: "nat \<Rightarrow> nat \<Rightarrow> nat" where
  "bcoord d k = (if d = 1 then 0 else k)"

definition bidx :: "nat list \<Rightarrow> nat list \<Rightarrow> nat list" where
  \<comment> \<open>The index of an operand of shape \<open>s\<close> that an index \<open>i\<close> of the broadcast result reads.\<close>
  "bidx s i = map2 bcoord s (drop (length i - length s) i)"

definition bop_result ::
  "('a \<Rightarrow> 'b \<Rightarrow> 'c) \<Rightarrow> 'a tensor \<Rightarrow> 'b tensor \<Rightarrow> nat list \<Rightarrow> 'c tensor" where
  "bop_result f a b s =
     \<lparr>shape = s, elem = (\<lambda>i. f (elem a (bidx (shape a) i)) (elem b (bidx (shape b) i)))\<rparr>"

definition bop :: "('a \<Rightarrow> 'b \<Rightarrow> 'c) \<Rightarrow> 'a tensor \<Rightarrow> 'b tensor \<Rightarrow> 'c tensor option" where
  \<comment> \<open>An elementwise binary operation \<open>a op b\<close> with broadcasting; the result is new.\<close>
  "bop f a b = map_option (bop_result f a b) (broadcast_shapes (shape a) (shape b))"

definition iop :: "('a \<Rightarrow> 'b \<Rightarrow> 'a) \<Rightarrow> 'a tensor \<Rightarrow> 'b tensor \<Rightarrow> 'a tensor option" where
  \<comment> \<open>An in-place operation \<open>a op= b\<close>: \<open>b\<close> is broadcast to the shape of \<open>a\<close>, which
      must not change.\<close>
  "iop f a b =
     (case broadcast_shapes (shape a) (shape b) of
        None \<Rightarrow> None
      | Some s \<Rightarrow> if s = shape a then Some (bop_result f a b s) else None)"

definition tmap :: "('a \<Rightarrow> 'b) \<Rightarrow> 'a tensor \<Rightarrow> 'b tensor" where
  \<comment> \<open>An elementwise function, or an operation with a Python scalar.\<close>
  "tmap f t = \<lparr>shape = shape t, elem = (\<lambda>i. f (elem t i))\<rparr>"

definition unsqueeze_at :: "'a tensor \<Rightarrow> nat \<Rightarrow> 'a tensor" where
  "unsqueeze_at t p =
     \<lparr>shape = take p (shape t) @ [1] @ drop p (shape t),
      elem = (\<lambda>i. elem t (take p i @ drop (Suc p) i))\<rparr>"

definition unsqueeze :: "'a tensor \<Rightarrow> int \<Rightarrow> 'a tensor option" where
  \<comment> \<open>\<open>t.unsqueeze(d)\<close>: a new axis of size 1 at position \<open>d\<close> of the result.\<close>
  "unsqueeze t d = map_option (unsqueeze_at t) (axis (rank t + 1) d)"

definition squeeze_at :: "'a tensor \<Rightarrow> nat \<Rightarrow> 'a tensor" where
  "squeeze_at t p =
     (if shape t ! p = 1
      then \<lparr>shape = take p (shape t) @ drop (Suc p) (shape t),
            elem = (\<lambda>i. elem t (take p i @ [0] @ drop p i))\<rparr>
      else t)"

definition squeeze :: "'a tensor \<Rightarrow> int \<Rightarrow> 'a tensor option" where
  \<comment> \<open>\<open>t.squeeze(d)\<close>: axis \<open>d\<close> is removed when its size is 1, and kept otherwise.\<close>
  "squeeze t d = map_option (squeeze_at t) (axis (rank t) d)"

definition sum_at :: "fl tensor \<Rightarrow> bool \<Rightarrow> nat \<Rightarrow> fl tensor" where
  "sum_at t keepdim p =
     \<lparr>shape = take p (shape t) @ (if keepdim then [1] else []) @ drop (Suc p) (shape t),
      elem = (\<lambda>i. \<Sum>k = 0..<shape t ! p.
                elem t (take p i @ [k] @ drop (if keepdim then Suc p else p) i))\<rparr>"

definition sum_dim :: "fl tensor \<Rightarrow> int \<Rightarrow> bool \<Rightarrow> fl tensor option" where
  \<comment> \<open>\<open>t.sum(d, keepdim)\<close>\<close>
  "sum_dim t d keepdim = map_option (sum_at t keepdim) (axis (rank t) d)"

definition reduce :: "(fl \<Rightarrow> fl \<Rightarrow> fl) \<Rightarrow> (nat \<Rightarrow> fl) \<Rightarrow> nat \<Rightarrow> fl" where
  \<comment> \<open>The reduction of the entries \<open>f 0, ..., f (n - 1)\<close>, for \<open>n > 0\<close>.\<close>
  "reduce m f n = foldl m (f 0) (map f [1..<n])"

definition reduce_at :: "(fl \<Rightarrow> fl \<Rightarrow> fl) \<Rightarrow> fl tensor \<Rightarrow> bool \<Rightarrow> nat \<Rightarrow> fl tensor" where
  "reduce_at m t keepdim p =
     \<lparr>shape = take p (shape t) @ (if keepdim then [1] else []) @ drop (Suc p) (shape t),
      elem = (\<lambda>i. reduce m
                (\<lambda>k. elem t (take p i @ [k] @ drop (if keepdim then Suc p else p) i))
                (shape t ! p))\<rparr>"

definition reduce_dim ::
  "(fl \<Rightarrow> fl \<Rightarrow> fl) \<Rightarrow> fl tensor \<Rightarrow> int \<Rightarrow> bool \<Rightarrow> fl tensor option" where
  \<comment> \<open>\<open>torch.max(t, d, keepdim)[0]\<close> and \<open>torch.min(t, d, keepdim)[0]\<close>: an empty axis raises.\<close>
  "reduce_dim m t d keepdim =
     (case axis (rank t) d of
        None \<Rightarrow> None
      | Some p \<Rightarrow> if shape t ! p = 0 then None else Some (reduce_at m t keepdim p))"

definition transpose_result :: "'a tensor \<Rightarrow> 'a tensor" where
  "transpose_result t =
     (let r = rank t in
      \<lparr>shape = take (r - 2) (shape t) @ [shape t ! (r - 1), shape t ! (r - 2)],
       elem = (\<lambda>i. elem t (take (r - 2) i @ [i ! (r - 1), i ! (r - 2)]))\<rparr>)"

definition transpose_last :: "'a tensor \<Rightarrow> 'a tensor option" where
  \<comment> \<open>\<open>torch.transpose(t, -1, -2)\<close>\<close>
  "transpose_last t = (if rank t < 2 then None else Some (transpose_result t))"

fun idxs :: "nat list \<Rightarrow> nat list list" where
  \<comment> \<open>All indices of a tensor of the given shape.\<close>
  "idxs [] = [[]]"
| "idxs (n # ns) = concat (map (\<lambda>k. map ((#) k) (idxs ns)) [0..<n])"

definition sum_leftmost :: "fl tensor \<Rightarrow> int \<Rightarrow> fl tensor" where
  \<comment> \<open>Modelled from the spec: \<open>pyro.distributions.util.sum_leftmost\<close> is not among the
      sources. The spec has it sum over the leading sample axes; with a negative \<open>d\<close> the
      last \<open>-d\<close> axes are kept and all axes before them are summed out.\<close>
  "sum_leftmost t d =
     (let n = (if d < 0 then nat (int (rank t) + d) else nat d)
      in \<lparr>shape = drop n (shape t),
          elem = (\<lambda>i. \<Sum>l \<leftarrow> idxs (take n (shape t)). elem t (l @ i))\<rparr>)"

definition fill_result :: "fl tensor \<Rightarrow> nat \<Rightarrow> fl \<Rightarrow> fl tensor" where
  "fill_result t K v =
     (let r = rank t in
      \<lparr>shape = shape t,
       elem = (\<lambda>i. if i ! (r - 3) = i ! (r - 2) \<and> i ! (r - 2) < K then v else elem t i)\<rparr>)"

definition fill_diagonals :: "fl tensor \<Rightarrow> nat \<Rightarrow> fl \<Rightarrow> fl tensor option" where
  \<comment> \<open>\<open>t[..., diagonals, diagonals, :] = v\<close> with \<open>diagonals = LongTensor(range(K))\<close>: the
      entries whose third-last and second-last coordinates are one same \<open>k < K\<close> are
      overwritten; a \<open>k\<close> beyond either axis raises.\<close>
  "fill_diagonals t K v =
     (let r = rank t in
      if r < 3 then None
      else if 0 < K \<and> (shape t ! (r - 3) < K \<or> shape t ! (r - 2) < K) then None
      else Some (fill_result t K v))"

definition expand :: "'a tensor \<Rightarrow> nat list \<Rightarrow> 'a tensor option" where
  \<comment> \<open>\<open>t.expand(sizes)\<close>: the sizes are aligned at the last axis; an axis of \<open>t\<close> keeps
      its size or, when its size is 1, is repeated.\<close>
  "expand t s =
     (if rank t \<le> length s
         \<and> list_all2 (\<lambda>d n. d = n \<or> d = 1) (shape t) (drop (length s - rank t) s)
      then Some \<lparr>shape = s, elem = (\<lambda>i. elem t (bidx (shape t) i))\<rparr>
      else None)"

definition gather :: "'a tensor \<Rightarrow> int \<Rightarrow> nat tensor \<Rightarrow> 'a tensor option" where
  \<comment> \<open>\<open>torch.gather(input, d, index)\<close>: \<open>index\<close> has the rank of \<open>input\<close> and is no larger
      than \<open>input\<close> on the other axes; the result has the shape of \<open>index\<close>, and its entry
      at \<open>i\<close> is the entry of \<open>input\<close> at \<open>i\<close> with coordinate \<open>d\<close> replaced by \<open>index[i]\<close>.
      An entry of \<open>index\<close> beyond axis \<open>d\<close> of \<open>input\<close> raises.\<close>
  "gather input d index =
     (case axis (rank input) d of
        None \<Rightarrow> None
      | Some p \<Rightarrow>
          if rank index \<noteq> rank input then None
          else if list_ex (\<lambda>a. a \<noteq> p \<and> shape input ! a < shape index ! a) [0..<rank input]
          then None
          else if list_ex (\<lambda>i. shape input ! p \<le> elem index i) (idxs (shape index))
          then None
          else Some \<lparr>shape = shape index, elem = (\<lambda>i. elem input (i[p := elem index i]))\<rparr>)"

fun unsqueeze_last :: "nat \<Rightarrow> 'a tensor \<Rightarrow> 'a tensor option" where
  \<comment> \<open>\<open>for _ in range(n): t = t.unsqueeze(-1)\<close>\<close>
  "unsqueeze_last 0 t = Some t"
| "unsqueeze_last (Suc n) t = unsqueeze t (- 1) \<bind> unsqueeze_last n"

section \<open>The distribution\<close>

datatype error = AssertionError | IndexError | ValueError

definition py_assert :: "bool \<Rightarrow> error + unit" where
  "py_assert c = (if c then Inr () else Inl AssertionError)"

definition sum_bind :: "error + 'a \<Rightarrow> ('a \<Rightarrow> error + 'b) \<Rightarrow> error + 'b" where
  "sum_bind m f = (case m of Inl e \<Rightarrow> Inl e | Inr x \<Rightarrow> f x)"

definition or_raise :: "'a option \<Rightarrow> error \<Rightarrow> error + 'a" where
  "or_raise m e = (case m of None \<Rightarrow> Inl e | Some x \<Rightarrow> Inr x)"

definition softmax :: "fl tensor \<Rightarrow> fl tensor" where
  \<comment> \<open>Modelled from the spec: \<open>Categorical(logits=logits).probs\<close> belongs to the array
      library, not to the sources. The spec has \<open>weights = softmax(logits)\<close> along the
      last axis.\<close>
  "softmax t =
     \<lparr>shape = shape t,
      elem = (\<lambda>i. fl_exp (elem t i) / (\<Sum>k = 0..<last (shape t). fl_exp (elem t (butlast i @ [k]))))\<rparr>"

definition constraint_real :: "fl \<Rightarrow> bool" where
  \<comment> \<open>\<open>constraints.real.check\<close>: the library accepts every entry but \<open>NaN\<close>.\<close>
  "constraint_real x \<longleftrightarrow> x \<noteq> NaN"

definition constraint_positive :: "fl \<Rightarrow> bool" where
  \<comment> \<open>\<open>constraints.positive.check\<close>: \<open>0 < x\<close>, which is false of \<open>NaN\<close>.\<close>
  "constraint_positive x \<longleftrightarrow> (case x of Fin a \<Rightarrow> 0 < a | PInf \<Rightarrow> True | _ \<Rightarrow> False)"

definition check_all :: "(fl \<Rightarrow> bool) \<Rightarrow> fl tensor \<Rightarrow> bool" where
  \<comment> \<open>\<open>constraint.check(t).all()\<close>\<close>
  "check_all c t = list_all (\<lambda>i. c (elem t i)) (idxs (shape t))"

definition py_validate :: "bool \<Rightarrow> error + unit" where
  \<comment> \<open>The validation of an argument by the library: a \<open>ValueError\<close> when it fails.\<close>
  "py_validate c = (if c then Inr () else Inl ValueError)"

definition categorical_logits :: "fl tensor \<Rightarrow> fl tensor" where
  \<comment> \<open>The logits that \<open>Categorical(logits=logits)\<close> keeps and validates:
      \<open>logits - logits.logsumexp(dim=-1, keepdim=True)\<close>.\<close>
  "categorical_logits t =
     \<lparr>shape = shape t,
      elem = (\<lambda>i. elem t i
                  - fl_log (\<Sum>k = 0..<last (shape t). fl_exp (elem t (butlast i @ [k]))))\<rparr>"

definition fl_finite :: "fl \<Rightarrow> bool" where
  "fl_finite x \<longleftrightarrow> (case x of Fin _ \<Rightarrow> True | _ \<Rightarrow> False)"

definition fl_finite_pos :: "fl \<Rightarrow> bool" where
  "fl_finite_pos x \<longleftrightarrow> (case x of Fin a \<Rightarrow> 0 < a | _ \<Rightarrow> False)"


record mixture =
  self_locs :: "fl tensor"
  self_scale :: "fl tensor"
  self_logits :: "fl tensor"
  self_probs :: "fl tensor"
  self_batch_mode :: bool
  self_dim :: nat
  batch_shape :: "nat list"
  event_shape :: "nat list"

definition init :: "fl tensor \<Rightarrow> fl tensor \<Rightarrow> fl tensor \<Rightarrow> error + mixture" where
  \<comment> \<open>\<open>MixtureOfDiagNormalsSharedCovariance.__init__\<close>: the assertions in the order of
      the source, then \<open>Categorical(logits=logits)\<close>, which validates its logits, then the
      constructor of the base class, which validates \<open>locs\<close>, \<open>scale\<close> and \<open>logits\<close>
      against \<open>arg_constraints\<close> and keeps the two shapes.\<close>
  "init locs scale logits =
     (let bm = (rank locs > 2) in
      sum_bind (py_assert (bm \<or> rank locs = 2)) (\<lambda>_.
      sum_bind
        (if \<not> bm then
           sum_bind (py_assert (rank scale = 1)) (\<lambda>_.
           sum_bind (py_assert (rank logits = 1)) (\<lambda>_.
           sum_bind (or_raise (size_at logits 0) IndexError) (\<lambda>a.
           sum_bind (or_raise (size_at locs 0) IndexError) (\<lambda>b.
           sum_bind (py_assert (a = b)) (\<lambda>_.
           Inr [])))))
         else
           sum_bind (py_assert (rank scale > 1)) (\<lambda>_.
           sum_bind (py_assert (rank logits > 1)) (\<lambda>_.
           sum_bind (or_raise (size_at logits (- 1)) IndexError) (\<lambda>a.
           sum_bind (or_raise (size_at locs (- 2)) IndexError) (\<lambda>b.
           sum_bind (py_assert (a = b)) (\<lambda>_.
           Inr (take (rank locs - 2) (shape locs))))))))
        (\<lambda>bs.
      sum_bind (or_raise (size_at locs (- 1)) IndexError) (\<lambda>d.
      sum_bind (py_validate (1 \<le> rank logits)) (\<lambda>_.
      sum_bind (py_validate (check_all constraint_real (categorical_logits logits))) (\<lambda>_.
      sum_bind (py_validate (check_all constraint_real locs)) (\<lambda>_.
      sum_bind (py_validate (check_all constraint_positive scale)) (\<lambda>_.
      sum_bind (py_validate (check_all constraint_real logits)) (\<lambda>_.
      Inr \<lparr>self_locs = locs, self_scale = scale, self_logits = logits,
           self_probs = softmax logits, self_batch_mode = bm, self_dim = d,
           batch_shape = bs, event_shape = [d]\<rparr>)))))))))"








section \<open>Sampling: the forward pass\<close>

record saved =
  sv_z :: "fl tensor"
  sv_scale :: "fl tensor"
  sv_locs :: "fl tensor"
  sv_logits :: "fl tensor"
  sv_pis :: "fl tensor"

definition forward ::
  "fl tensor \<Rightarrow> fl tensor \<Rightarrow> fl tensor \<Rightarrow> fl tensor \<Rightarrow> nat tensor \<Rightarrow> nat list \<Rightarrow>
   (nat list \<Rightarrow> fl) \<Rightarrow> (fl tensor \<times> saved) option" where
  \<comment> \<open>\<open>_MixDiagNormalSharedCovarianceSample.forward\<close>. The standard normal draws of
      \<open>locs.new(noise_shape).normal_()\<close> are the parameter \<open>noise\<close>, one draw for each
      index. The result is \<open>z\<close> together with the tensors saved for the backward pass.\<close>
  "forward locs scale logits pis which noise_shape noise = do {
     dim \<leftarrow> size_at scale (- 1);
     let white = \<lparr>shape = noise_shape, elem = noise\<rparr>;
     let n_unsqueezes = int (rank locs) - int (rank which);
     which \<leftarrow> unsqueeze_last (nat n_unsqueezes) which;
     let expand_tuple = butlast (shape which) @ [dim];
     index \<leftarrow> expand which expand_tuple;
     gathered \<leftarrow> gather locs (- 2) index;
     loc \<leftarrow> squeeze gathered (- 2);
     sw \<leftarrow> bop (*) scale white;
     z \<leftarrow> bop (+) loc sw;
     Some (z, \<lparr>sv_z = z, sv_scale = scale, sv_locs = locs, sv_logits = logits, sv_pis = pis\<rparr>)
   }"

definition rsample :: "mixture \<Rightarrow> nat list \<Rightarrow> nat tensor \<Rightarrow> (nat list \<Rightarrow> fl) \<Rightarrow>
    (fl tensor \<times> saved) option" where
  \<comment> \<open>\<open>rsample\<close>; the draw \<open>self.categorical.sample(sample_shape)\<close> is the parameter
      \<open>which\<close>.\<close>
  "rsample self sample_shape which noise =
     forward (self_locs self) (self_scale self) (self_logits self) (self_probs self) which
       (sample_shape @ shape (self_scale self)) noise"

section \<open>Sampling: the backward pass\<close>

text \<open>
  The backward pass is given twice: \<open>backward\<close> follows the source line by line, and the
  functions \<open>bw_...\<close> are its blocks on their own, each taking the tensors the block
  reads. The theorems are about \<open>backward\<close>; the blocks structure their proofs.
\<close>

definition bw_tilde :: "fl tensor \<Rightarrow> fl tensor \<Rightarrow> fl tensor \<Rightarrow> (fl tensor \<times> fl tensor) option" where
  \<comment> \<open>\<open>z_tilde\<close> and \<open>locs_tilde\<close>\<close>
  "bw_tilde z scale locs = do {
     z_tilde \<leftarrow> bop (/) z scale;
     su \<leftarrow> unsqueeze scale (- 2);
     locs_tilde \<leftarrow> bop (/) locs su;
     Some (z_tilde, locs_tilde)
   }"

definition bw_mu_ab :: "fl tensor \<Rightarrow> nat \<Rightarrow> fl tensor option" where
  \<comment> \<open>\<open>mu_ab\<close>: the differences of the means, divided in place by their norms, then the
      diagonal overwritten with \<open>0.0\<close>.\<close>
  "bw_mu_ab locs_tilde K = do {
     a \<leftarrow> unsqueeze locs_tilde (- 2);
     b \<leftarrow> unsqueeze locs_tilde (- 3);
     mu_ab \<leftarrow> bop (-) a b;
     s \<leftarrow> sum_dim (tmap fl_pow2 mu_ab) (- 1) False;
     let mu_ab_norm = tmap fl_sqrt s;
     n \<leftarrow> unsqueeze mu_ab_norm (- 1);
     mu_ab \<leftarrow> iop (/) mu_ab n;
     fill_diagonals mu_ab K (Fin 0)
   }"

definition bw_proj ::
  "fl tensor \<Rightarrow> fl tensor \<Rightarrow> fl tensor \<Rightarrow> (fl tensor \<times> fl tensor \<times> fl tensor) option" where
  \<comment> \<open>\<open>mu_ll_ab\<close>, \<open>z_ll_ab\<close> and \<open>z_perp_ab_sqr\<close>\<close>
  "bw_proj z_tilde locs_tilde mu_ab = do {
     a \<leftarrow> unsqueeze locs_tilde (- 2);
     t \<leftarrow> bop (*) a mu_ab;
     mu_ll_ab \<leftarrow> sum_dim t (- 1) False;
     zu \<leftarrow> unsqueeze z_tilde (- 2);
     zuu \<leftarrow> unsqueeze zu (- 2);
     t \<leftarrow> bop (*) zuu mu_ab;
     z_ll_ab \<leftarrow> sum_dim t (- 1) False;
     zl \<leftarrow> unsqueeze z_ll_ab (- 1);
     t \<leftarrow> bop (*) zl mu_ab;
     z_perp_ab \<leftarrow> bop (-) zuu t;
     z_perp_ab_sqr \<leftarrow> sum_dim (tmap fl_pow2 z_perp_ab) (- 1) False;
     Some (mu_ll_ab, z_ll_ab, z_perp_ab_sqr)
   }"

definition bw_log_q :: "fl tensor \<Rightarrow> fl tensor \<Rightarrow> (fl tensor \<times> fl tensor) option" where
  \<comment> \<open>\<open>epsilons\<close> and \<open>log_q_j\<close>\<close>
  "bw_log_q z_tilde locs_tilde = do {
     zu \<leftarrow> unsqueeze z_tilde (- 2);
     epsilons \<leftarrow> bop (-) zu locs_tilde;
     let log_qs = tmap (\<lambda>x. Fin (- (1 / 2)) * x) (tmap fl_pow2 epsilons);
     log_q_j \<leftarrow> sum_dim log_qs (- 1) True;
     Some (epsilons, log_q_j)
   }"

definition bw_q_prime_arg :: "fl tensor \<Rightarrow> fl tensor option" where
  \<comment> \<open>\<open>log_q_j - log_q_j_max\<close>, the argument of the exponential of \<open>q_j_prime\<close>\<close>
  "bw_q_prime_arg log_q_j = do {
     log_q_j_max \<leftarrow> reduce_dim fl_max log_q_j (- 2) True;
     bop (-) log_q_j log_q_j_max
   }"

definition bw_q_tot :: "fl tensor \<Rightarrow> fl tensor \<Rightarrow> fl tensor \<Rightarrow> (fl tensor \<times> fl tensor) option" where
  \<comment> \<open>\<open>q_tot\<close> and \<open>q_tot_prime\<close>\<close>
  "bw_q_tot pis q_j q_j_prime = do {
     pu \<leftarrow> unsqueeze pis (- 1);
     t \<leftarrow> bop (*) pu q_j;
     q_tot \<leftarrow> sum_dim t (- 2) False;
     t \<leftarrow> bop (*) pu q_j_prime;
     t \<leftarrow> sum_dim t (- 2) False;
     q_tot_prime \<leftarrow> unsqueeze t (- 1);
     Some (q_tot, q_tot_prime)
   }"

definition bw_logits_grad ::
  "fl tensor \<Rightarrow> fl tensor \<Rightarrow> fl tensor \<Rightarrow> fl tensor \<Rightarrow> fl tensor \<Rightarrow> fl tensor \<Rightarrow> fl tensor \<Rightarrow>
   fl tensor \<Rightarrow> int \<Rightarrow> fl tensor option" where
  \<comment> \<open>\<open>logits_grad\<close>, from \<open>root_two = math.sqrt(2.0)\<close> to its last in-place product\<close>
  "bw_logits_grad scale pis g mu_ab mu_ll_ab z_ll_ab z_perp_ab_sqr q_tot batch_dims = do {
     let root_two = sqrt 2;
     mu_ll_ba \<leftarrow> transpose_last mu_ll_ab;
     a \<leftarrow> bop (-) z_ll_ab mu_ll_ab;
     b \<leftarrow> bop (+) z_ll_ab mu_ll_ba;
     logits_grad \<leftarrow> bop (-) (tmap fl_erf (tmap (\<lambda>x. x / Fin root_two) a))
                            (tmap fl_erf (tmap (\<lambda>x. x / Fin root_two) b));
     logits_grad \<leftarrow> iop (*) logits_grad
                        (tmap fl_exp (tmap (\<lambda>x. Fin (- (1 / 2)) * x) z_perp_ab_sqr));
     sg \<leftarrow> bop (*) scale g;
     sgu \<leftarrow> unsqueeze sg (- 2);
     sguu \<leftarrow> unsqueeze sgu (- 2);
     t \<leftarrow> bop (*) sguu mu_ab;
     mu_ab_sigma_g \<leftarrow> sum_dim t (- 1) False;
     pu \<leftarrow> unsqueeze pis (- 2);
     t \<leftarrow> bop (*) (tmap uminus mu_ab_sigma_g) pu;
     logits_grad \<leftarrow> iop (*) logits_grad t;
     s \<leftarrow> sum_dim logits_grad (- 1) False;
     t \<leftarrow> bop (/) s q_tot;
     logits_grad \<leftarrow> bop (*) pis (sum_leftmost t (- (1 + batch_dims)));
     Some (tmap (\<lambda>x. x * Fin (sqrt (1 / 2 * pi))) logits_grad)
   }"

definition bw_locs_scale_grad ::
  "fl tensor \<Rightarrow> fl tensor \<Rightarrow> fl tensor \<Rightarrow> fl tensor \<Rightarrow> fl tensor \<Rightarrow> int \<Rightarrow>
   (fl tensor \<times> fl tensor) option" where
  \<comment> \<open>\<open>prefactor\<close>, \<open>locs_grad\<close> and \<open>scale_grad\<close>\<close>
  "bw_locs_scale_grad pis g epsilons q_j_prime q_tot_prime batch_dims = do {
     pu \<leftarrow> unsqueeze pis (- 1);
     t \<leftarrow> bop (*) pu q_j_prime;
     gu \<leftarrow> unsqueeze g (- 2);
     t \<leftarrow> bop (*) t gu;
     prefactor \<leftarrow> bop (/) t q_tot_prime;
     let locs_grad = sum_leftmost prefactor (- (2 + batch_dims));
     t \<leftarrow> bop (*) prefactor epsilons;
     scale_grad \<leftarrow> sum_dim (sum_leftmost t (- (2 + batch_dims))) (- 2) False;
     Some (locs_grad, scale_grad)
   }"

definition backward :: "saved \<Rightarrow> fl tensor \<Rightarrow> (fl tensor \<times> fl tensor \<times> fl tensor) option" where
  \<comment> \<open>\<open>_MixDiagNormalSharedCovarianceSample.backward\<close>, line by line; the result is
      \<open>(locs_grad, scale_grad, logits_grad)\<close>. The in-place updates (\<open>/=\<close>, the
      assignment to the diagonal, \<open>*=\<close>) rebind the name of the tensor they update.\<close>
  "backward ctx grad_output = do {
     let z = sv_z ctx; let scale = sv_scale ctx; let locs = sv_locs ctx;
     let logits = sv_logits ctx; let pis = sv_pis ctx;
     K \<leftarrow> size_at logits (- 1);
     let batch_dims = int (rank scale) - 1;
     let g = grad_output;

     z_tilde \<leftarrow> bop (/) z scale;
     su \<leftarrow> unsqueeze scale (- 2);
     locs_tilde \<leftarrow> bop (/) locs su;
     lu2 \<leftarrow> unsqueeze locs_tilde (- 2);
     lu3 \<leftarrow> unsqueeze locs_tilde (- 3);
     mu_ab \<leftarrow> bop (-) lu2 lu3;
     s \<leftarrow> sum_dim (tmap fl_pow2 mu_ab) (- 1) False;
     let mu_ab_norm = tmap fl_sqrt s;
     n \<leftarrow> unsqueeze mu_ab_norm (- 1);
     mu_ab \<leftarrow> iop (/) mu_ab n;
     mu_ab \<leftarrow> fill_diagonals mu_ab K (Fin 0);

     lu2 \<leftarrow> unsqueeze locs_tilde (- 2);
     t \<leftarrow> bop (*) lu2 mu_ab;
     mu_ll_ab \<leftarrow> sum_dim t (- 1) False;
     zu \<leftarrow> unsqueeze z_tilde (- 2);
     zuu \<leftarrow> unsqueeze zu (- 2);
     t \<leftarrow> bop (*) zuu mu_ab;
     z_ll_ab \<leftarrow> sum_dim t (- 1) False;
     zl \<leftarrow> unsqueeze z_ll_ab (- 1);
     t \<leftarrow> bop (*) zl mu_ab;
     z_perp_ab \<leftarrow> bop (-) zuu t;
     z_perp_ab_sqr \<leftarrow> sum_dim (tmap fl_pow2 z_perp_ab) (- 1) False;

     zu \<leftarrow> unsqueeze z_tilde (- 2);
     epsilons \<leftarrow> bop (-) zu locs_tilde;
     let log_qs = tmap (\<lambda>x. Fin (- (1 / 2)) * x) (tmap fl_pow2 epsilons);
     log_q_j \<leftarrow> sum_dim log_qs (- 1) True;
     log_q_j_max \<leftarrow> reduce_dim fl_max log_q_j (- 2) True;
     d \<leftarrow> bop (-) log_q_j log_q_j_max;
     let q_j_prime = tmap fl_exp d;
     let q_j = tmap fl_exp log_q_j;

     pu \<leftarrow> unsqueeze pis (- 1);
     t \<leftarrow> bop (*) pu q_j;
     q_tot \<leftarrow> sum_dim t (- 2) False;
     t \<leftarrow> bop (*) pu q_j_prime;
     t \<leftarrow> sum_dim t (- 2) False;
     q_tot_prime \<leftarrow> unsqueeze t (- 1);

     let root_two = sqrt 2;
     mu_ll_ba \<leftarrow> transpose_last mu_ll_ab;
     a \<leftarrow> bop (-) z_ll_ab mu_ll_ab;
     b \<leftarrow> bop (+) z_ll_ab mu_ll_ba;
     logits_grad \<leftarrow> bop (-) (tmap fl_erf (tmap (\<lambda>x. x / Fin root_two) a))
                            (tmap fl_erf (tmap (\<lambda>x. x / Fin root_two) b));
     logits_grad \<leftarrow> iop (*) logits_grad
                        (tmap fl_exp (tmap (\<lambda>x. Fin (- (1 / 2)) * x) z_perp_ab_sqr));

     sg \<leftarrow> bop (*) scale g;
     sgu \<leftarrow> unsqueeze sg (- 2);
     sguu \<leftarrow> unsqueeze sgu (- 2);
     t \<leftarrow> bop (*) sguu mu_ab;
     mu_ab_sigma_g \<leftarrow> sum_dim t (- 1) False;
     pu2 \<leftarrow> unsqueeze pis (- 2);
     t \<leftarrow> bop (*) (tmap uminus mu_ab_sigma_g) pu2;
     logits_grad \<leftarrow> iop (*) logits_grad t;
     s \<leftarrow> sum_dim logits_grad (- 1) False;
     t \<leftarrow> bop (/) s q_tot;
     logits_grad \<leftarrow> bop (*) pis (sum_leftmost t (- (1 + batch_dims)));
     let logits_grad = tmap (\<lambda>x. x * Fin (sqrt (1 / 2 * pi))) logits_grad;

     pu \<leftarrow> unsqueeze pis (- 1);
     t \<leftarrow> bop (*) pu q_j_prime;
     gu \<leftarrow> unsqueeze g (- 2);
     t \<leftarrow> bop (*) t gu;
     prefactor \<leftarrow> bop (/) t q_tot_prime;
     let locs_grad = sum_leftmost prefactor (- (2 + batch_dims));
     t \<leftarrow> bop (*) prefactor epsilons;
     scale_grad \<leftarrow> sum_dim (sum_leftmost t (- (2 + batch_dims))) (- 2) False;

     Some (locs_grad, scale_grad, logits_grad)
   }"

definition backward_exp_args :: "saved \<Rightarrow> (fl tensor \<times> fl tensor \<times> fl tensor) option" where
  \<comment> \<open>The lines of \<open>backward\<close> that lead to the three tensors it hands to \<open>torch.exp\<close>:
      \<open>log_q_j - log_q_j_max\<close> for \<open>q_j_prime\<close>, \<open>log_q_j\<close> for \<open>q_j\<close>, and
      \<open>-0.5 * z_perp_ab_sqr\<close> for the factor of \<open>logits_grad\<close>.\<close>
  "backward_exp_args ctx = do {
     K \<leftarrow> size_at (sv_logits ctx) (- 1);
     (z_tilde, locs_tilde) \<leftarrow> bw_tilde (sv_z ctx) (sv_scale ctx) (sv_locs ctx);
     mu_ab \<leftarrow> bw_mu_ab locs_tilde K;
     (mu_ll_ab, z_ll_ab, z_perp_ab_sqr) \<leftarrow> bw_proj z_tilde locs_tilde mu_ab;
     (epsilons, log_q_j) \<leftarrow> bw_log_q z_tilde locs_tilde;
     d \<leftarrow> bw_q_prime_arg log_q_j;
     Some (d, log_q_j, tmap (\<lambda>x. Fin (- (1 / 2)) * x) z_perp_ab_sqr)
   }"

section \<open>The formulas of the specification\<close>

text \<open>
  The quantities of the specification, entry by entry, in the arithmetic of the tensor
  entries. \<open>l\<close> is an index of the leading sample axes, \<open>b\<close> an index of the batch axes;
  \<open>D\<close> is the event dimension and \<open>K\<close> the number of components.
\<close>

definition valid :: "nat list \<Rightarrow> nat list \<Rightarrow> bool" where
  \<comment> \<open>\<open>i\<close> is an index of a tensor of shape \<open>s\<close>.\<close>
  "valid s i = list_all2 (<) i s"

definition f_z_tilde :: "saved \<Rightarrow> nat list \<Rightarrow> nat list \<Rightarrow> nat \<Rightarrow> fl" where
  "f_z_tilde ctx l b i = elem (sv_z ctx) (l @ b @ [i]) / elem (sv_scale ctx) (b @ [i])"

definition f_locs_tilde :: "saved \<Rightarrow> nat list \<Rightarrow> nat \<Rightarrow> nat \<Rightarrow> fl" where
  "f_locs_tilde ctx b j i = elem (sv_locs ctx) (b @ [j, i]) / elem (sv_scale ctx) (b @ [i])"

definition f_sep :: "nat \<Rightarrow> saved \<Rightarrow> nat list \<Rightarrow> nat \<Rightarrow> nat \<Rightarrow> fl" where
  \<comment> \<open>The length of \<open>locs~[p,:] - locs~[q,:]\<close>.\<close>
  "f_sep D ctx b p q =
     fl_sqrt (\<Sum>i = 0..<D. fl_pow2 (f_locs_tilde ctx b p i - f_locs_tilde ctx b q i))"

definition f_mu :: "nat \<Rightarrow> saved \<Rightarrow> nat list \<Rightarrow> nat \<Rightarrow> nat \<Rightarrow> nat \<Rightarrow> fl" where
  \<comment> \<open>\<open>mu[p,q,:] = normalize(locs~[p,:] - locs~[q,:])\<close>: the zero vector when \<open>p = q\<close> and,
      by the policy of the degenerate case, when the difference has zero length (a pair
      without a direction contributes nothing).\<close>
  "f_mu D ctx b p q i =
     (if p = q \<or> f_sep D ctx b p q = Fin 0 then Fin 0
      else (f_locs_tilde ctx b p i - f_locs_tilde ctx b q i) / f_sep D ctx b p q)"

definition f_mu_ll :: "nat \<Rightarrow> saved \<Rightarrow> nat list \<Rightarrow> nat \<Rightarrow> nat \<Rightarrow> fl" where
  \<comment> \<open>\<open>mu_ll[p,q] = <locs~[q,:], mu[p,q,:]>\<close>, as the specification defines it\<close>
  "f_mu_ll D ctx b p q = (\<Sum>i = 0..<D. f_locs_tilde ctx b q i * f_mu D ctx b p q i)"

definition f_mu_ll_ab :: "nat \<Rightarrow> saved \<Rightarrow> nat list \<Rightarrow> nat \<Rightarrow> nat \<Rightarrow> fl" where
  \<comment> \<open>\<open><locs~[p,:], mu[p,q,:]>\<close>: the projection of the first mean of the pair, which is
      the one the source computes\<close>
  "f_mu_ll_ab D ctx b p q = (\<Sum>i = 0..<D. f_locs_tilde ctx b p i * f_mu D ctx b p q i)"

definition f_z_ll :: "nat \<Rightarrow> saved \<Rightarrow> nat list \<Rightarrow> nat list \<Rightarrow> nat \<Rightarrow> nat \<Rightarrow> fl" where
  "f_z_ll D ctx l b p q = (\<Sum>i = 0..<D. f_z_tilde ctx l b i * f_mu D ctx b p q i)"

definition f_z_perp_sqr :: "nat \<Rightarrow> saved \<Rightarrow> nat list \<Rightarrow> nat list \<Rightarrow> nat \<Rightarrow> nat \<Rightarrow> fl" where
  "f_z_perp_sqr D ctx l b p q =
     (\<Sum>i = 0..<D. fl_pow2 (f_z_tilde ctx l b i - f_z_ll D ctx l b p q * f_mu D ctx b p q i))"

definition f_epsilon :: "saved \<Rightarrow> nat list \<Rightarrow> nat list \<Rightarrow> nat \<Rightarrow> nat \<Rightarrow> fl" where
  "f_epsilon ctx l b j i = f_z_tilde ctx l b i - f_locs_tilde ctx b j i"

definition f_log_q :: "nat \<Rightarrow> saved \<Rightarrow> nat list \<Rightarrow> nat list \<Rightarrow> nat \<Rightarrow> fl" where
  "f_log_q D ctx l b j = Fin (- (1 / 2)) * (\<Sum>i = 0..<D. fl_pow2 (f_epsilon ctx l b j i))"

definition f_log_q_max :: "nat \<Rightarrow> nat \<Rightarrow> saved \<Rightarrow> nat list \<Rightarrow> nat list \<Rightarrow> fl" where
  "f_log_q_max K D ctx l b = reduce fl_max (\<lambda>j. f_log_q D ctx l b j) K"

definition f_q_prime :: "nat \<Rightarrow> nat \<Rightarrow> saved \<Rightarrow> nat list \<Rightarrow> nat list \<Rightarrow> nat \<Rightarrow> fl" where
  "f_q_prime K D ctx l b j = fl_exp (f_log_q D ctx l b j - f_log_q_max K D ctx l b)"

definition f_q :: "nat \<Rightarrow> saved \<Rightarrow> nat list \<Rightarrow> nat list \<Rightarrow> nat \<Rightarrow> fl" where
  "f_q D ctx l b j = fl_exp (f_log_q D ctx l b j)"

definition f_q_tot :: "nat \<Rightarrow> nat \<Rightarrow> saved \<Rightarrow> nat list \<Rightarrow> nat list \<Rightarrow> fl" where
  "f_q_tot K D ctx l b = (\<Sum>j = 0..<K. elem (sv_pis ctx) (b @ [j]) * f_q D ctx l b j)"

definition f_q_tot_prime :: "nat \<Rightarrow> nat \<Rightarrow> saved \<Rightarrow> nat list \<Rightarrow> nat list \<Rightarrow> fl" where
  "f_q_tot_prime K D ctx l b =
     (\<Sum>j = 0..<K. elem (sv_pis ctx) (b @ [j]) * f_q_prime K D ctx l b j)"

definition f_term ::
  "(nat list \<Rightarrow> nat \<Rightarrow> nat \<Rightarrow> fl) \<Rightarrow> nat \<Rightarrow> saved \<Rightarrow> fl tensor \<Rightarrow> nat list \<Rightarrow> nat list \<Rightarrow>
   nat \<Rightarrow> nat \<Rightarrow> fl" where
  \<comment> \<open>\<open>term[l,b,p,q]\<close>, for a given table \<open>mll\<close> of the projections \<open>mu_ll\<close>\<close>
  "f_term mll D ctx g l b p q =
     (fl_erf ((f_z_ll D ctx l b p q - mll b p q) / Fin (sqrt 2))
      - fl_erf ((f_z_ll D ctx l b p q + mll b q p) / Fin (sqrt 2)))
     * fl_exp (Fin (- (1 / 2)) * f_z_perp_sqr D ctx l b p q)
     * - (\<Sum>i = 0..<D. elem (sv_scale ctx) (b @ [i]) * elem g (l @ b @ [i]) * f_mu D ctx b p q i)
     * elem (sv_pis ctx) (b @ [q])"

definition f_grad_logits ::
  "(nat list \<Rightarrow> nat \<Rightarrow> nat \<Rightarrow> fl) \<Rightarrow> nat list \<Rightarrow> nat \<Rightarrow> nat \<Rightarrow> saved \<Rightarrow> fl tensor \<Rightarrow>
   nat list \<Rightarrow> nat \<Rightarrow> fl" where
  "f_grad_logits mll L K D ctx g b p =
     elem (sv_pis ctx) (b @ [p]) * Fin (sqrt (pi / 2))
     * (\<Sum>l \<leftarrow> idxs L. (\<Sum>q = 0..<K. f_term mll D ctx g l b p q) / f_q_tot K D ctx l b)"

definition f_prefactor ::
  "nat \<Rightarrow> nat \<Rightarrow> saved \<Rightarrow> fl tensor \<Rightarrow> nat list \<Rightarrow> nat list \<Rightarrow> nat \<Rightarrow> nat \<Rightarrow> fl" where
  "f_prefactor K D ctx g l b j i =
     elem (sv_pis ctx) (b @ [j]) * f_q_prime K D ctx l b j * elem g (l @ b @ [i])
       / f_q_tot_prime K D ctx l b"

definition f_grad_locs ::
  "nat list \<Rightarrow> nat \<Rightarrow> nat \<Rightarrow> saved \<Rightarrow> fl tensor \<Rightarrow> nat list \<Rightarrow> nat \<Rightarrow> nat \<Rightarrow> fl" where
  "f_grad_locs L K D ctx g b j i = (\<Sum>l \<leftarrow> idxs L. f_prefactor K D ctx g l b j i)"

definition f_grad_scale ::
  "nat list \<Rightarrow> nat \<Rightarrow> nat \<Rightarrow> saved \<Rightarrow> fl tensor \<Rightarrow> nat list \<Rightarrow> nat \<Rightarrow> fl" where
  "f_grad_scale L K D ctx g b i =
     (\<Sum>l \<leftarrow> idxs L. \<Sum>j = 0..<K. f_prefactor K D ctx g l b j i * f_epsilon ctx l b j i)"

definition wf_saved :: "nat list \<Rightarrow> nat list \<Rightarrow> nat \<Rightarrow> nat \<Rightarrow> saved \<Rightarrow> fl tensor \<Rightarrow> bool" where
  \<comment> \<open>The shapes of a saved context with sample shape \<open>L\<close>, batch shape \<open>B\<close>, \<open>K\<close> components
      and event dimension \<open>D\<close>, and of an upstream gradient of the shape of \<open>z\<close>.\<close>
  "wf_saved L B K D ctx g \<longleftrightarrow>
     shape (sv_z ctx) = L @ B @ [D] \<and> shape (sv_scale ctx) = B @ [D]
     \<and> shape (sv_locs ctx) = B @ [K, D] \<and> shape (sv_logits ctx) = B @ [K]
     \<and> shape (sv_pis ctx) = B @ [K] \<and> shape g = L @ B @ [D]"

definition distinct_means :: "nat \<Rightarrow> nat \<Rightarrow> saved \<Rightarrow> nat list \<Rightarrow> bool" where
  \<comment> \<open>At the batch index \<open>b\<close>, no two components have the same normalized mean.\<close>
  "distinct_means K D ctx b \<longleftrightarrow>
     (\<forall>p \<in> {0..<K}. \<forall>q \<in> {0..<K}. p \<noteq> q \<longrightarrow>
        (\<exists>i \<in> {0..<D}. f_locs_tilde ctx b p i \<noteq> f_locs_tilde ctx b q i))"

section \<open>The density of the specification\<close>






section \<open>The entries of the tensors of the backward pass\<close>

text \<open>
  The entries of \<open>mu_ab\<close>, \<open>mu_ll_ab\<close>, \<open>z_ll_ab\<close>, \<open>z_perp_ab_sqr\<close> and of \<open>logits_grad\<close>
  before its reduction, as the source computes them. The source sets the diagonal of
  \<open>mu_ab\<close> to zero and nothing else: off the diagonal an entry is the quotient by the
  length, also when the length is zero.
\<close>

definition mu_ab_at :: "nat \<Rightarrow> saved \<Rightarrow> nat list \<Rightarrow> nat \<Rightarrow> nat \<Rightarrow> nat \<Rightarrow> fl" where
  "mu_ab_at D ctx b p q i =
     (if p = q then Fin 0
      else (f_locs_tilde ctx b p i - f_locs_tilde ctx b q i)
           / fl_sqrt (\<Sum>i' = 0..<D. fl_pow2 (f_locs_tilde ctx b p i' - f_locs_tilde ctx b q i')))"

definition mu_ll_ab_at :: "nat \<Rightarrow> saved \<Rightarrow> nat list \<Rightarrow> nat \<Rightarrow> nat \<Rightarrow> fl" where
  "mu_ll_ab_at D ctx b p q = (\<Sum>i = 0..<D. f_locs_tilde ctx b p i * mu_ab_at D ctx b p q i)"

definition z_ll_ab_at :: "nat \<Rightarrow> saved \<Rightarrow> nat list \<Rightarrow> nat list \<Rightarrow> nat \<Rightarrow> nat \<Rightarrow> fl" where
  "z_ll_ab_at D ctx l b p q = (\<Sum>i = 0..<D. f_z_tilde ctx l b i * mu_ab_at D ctx b p q i)"

definition z_perp_ab_sqr_at ::
  "nat \<Rightarrow> saved \<Rightarrow> nat list \<Rightarrow> nat list \<Rightarrow> nat \<Rightarrow> nat \<Rightarrow> fl" where
  "z_perp_ab_sqr_at D ctx l b p q =
     (\<Sum>i = 0..<D. fl_pow2 (f_z_tilde ctx l b i - z_ll_ab_at D ctx l b p q * mu_ab_at D ctx b p q i))"

definition logits_grad_at ::
  "nat \<Rightarrow> saved \<Rightarrow> fl tensor \<Rightarrow> nat list \<Rightarrow> nat list \<Rightarrow> nat \<Rightarrow> nat \<Rightarrow> fl" where
  \<comment> \<open>\<open>logits_grad[l,b,p,q]\<close> after its two updates in place, before the sum over \<open>q\<close>\<close>
  "logits_grad_at D ctx g l b p q =
     (fl_erf ((z_ll_ab_at D ctx l b p q - mu_ll_ab_at D ctx b p q) / Fin (sqrt 2))
      - fl_erf ((z_ll_ab_at D ctx l b p q + mu_ll_ab_at D ctx b q p) / Fin (sqrt 2)))
     * fl_exp (Fin (- (1 / 2)) * z_perp_ab_sqr_at D ctx l b p q)
     * - (\<Sum>i = 0..<D. elem (sv_scale ctx) (b @ [i]) * elem g (l @ b @ [i]) * mu_ab_at D ctx b p q i)
     * elem (sv_pis ctx) (b @ [q])"

section \<open>A small saved context\<close>

definition tensor1 :: "'a list \<Rightarrow> 'a tensor" where
  \<comment> \<open>The 1-dimensional tensor of the given entries.\<close>
  "tensor1 xs = \<lparr>shape = [length xs], elem = (\<lambda>i. xs ! (i ! 0))\<rparr>"

definition tensor2 :: "'a list list \<Rightarrow> 'a tensor" where
  \<comment> \<open>The 2-dimensional tensor of the given rows.\<close>
  "tensor2 xss = \<lparr>shape = [length xss, length (xss ! 0)], elem = (\<lambda>i. xss ! (i ! 0) ! (i ! 1))\<rparr>"

definition ex_ctx :: saved where
  \<comment> \<open>Two components on the line (\<open>K = 2\<close>, \<open>D = 1\<close>) with means 0 and 1, unit scale and
      equal weights, no batch axes; one sample \<open>z = 0\<close>.\<close>
  "ex_ctx = \<lparr>sv_z = tensor1 [Fin 0], sv_scale = tensor1 [Fin 1],
             sv_locs = tensor2 [[Fin 0], [Fin 1]], sv_logits = tensor1 [Fin 0, Fin 0],
             sv_pis = tensor1 [Fin (1 / 2), Fin (1 / 2)]\<rparr>"

definition ex_g :: "fl tensor" where
  "ex_g = tensor1 [Fin 1]"

definition sh_ctx :: saved where
  \<comment> \<open>As \<open>ex_ctx\<close>, but the means are 1 and 2: the sample \<open>z = 0\<close> is at no mean.\<close>
  "sh_ctx = \<lparr>sv_z = tensor1 [Fin 0], sv_scale = tensor1 [Fin 1],
             sv_locs = tensor2 [[Fin 1], [Fin 2]], sv_logits = tensor1 [Fin 0, Fin 0],
             sv_pis = tensor1 [Fin (1 / 2), Fin (1 / 2)]\<rparr>"

definition co_ctx :: saved where
  \<comment> \<open>As \<open>ex_ctx\<close>, but the two components have the same mean 0.\<close>
  "co_ctx = \<lparr>sv_z = tensor1 [Fin 0], sv_scale = tensor1 [Fin 1],
             sv_locs = tensor2 [[Fin 0], [Fin 0]], sv_logits = tensor1 [Fin 0, Fin 0],
             sv_pis = tensor1 [Fin (1 / 2), Fin (1 / 2)]\<rparr>"

section \<open>Arguments with a scale of another length\<close>






section \<open>Two draws for each of two batches\<close>

definition two_locs :: "fl tensor" where
  \<comment> \<open>Two batches of one component on the line (\<open>B = 2\<close>, \<open>K = 1\<close>, \<open>D = 1\<close>): the mean
      is 10 in batch 0 and 20 in batch 1.\<close>
  "two_locs = \<lparr>shape = [2, 1, 1], elem = (\<lambda>i. if i ! 0 = 0 then Fin 10 else Fin 20)\<rparr>"

definition two_scale :: "fl tensor" where
  "two_scale = \<lparr>shape = [2, 1], elem = (\<lambda>i. Fin 1)\<rparr>"

definition two_logits :: "fl tensor" where
  "two_logits = \<lparr>shape = [2, 1], elem = (\<lambda>i. Fin 0)\<rparr>"

definition two_pis :: "fl tensor" where
  "two_pis = \<lparr>shape = [2, 1], elem = (\<lambda>i. Fin 1)\<rparr>"

definition two_which :: "nat tensor" where
  \<comment> \<open>Sample shape \<open>[2]\<close>, batch shape \<open>[2]\<close>: every draw picks the only component.\<close>
  "two_which = \<lparr>shape = [2, 2], elem = (\<lambda>i. 0)\<rparr>"

definition two_noise :: "nat list \<Rightarrow> fl" where
  \<comment> \<open>Every standard normal draw is 0.\<close>
  "two_noise i = Fin 0"

section \<open>Two instances for the density\<close>










section \<open>Shapes and indices\<close>

lemma valid_length: "valid s i \<Longrightarrow> length i = length s"
  by (simp add: valid_def list_all2_lengthD)

lemma valid_Nil [simp]: "valid [] i = (i = [])"
  by (simp add: valid_def)

lemma valid_Cons [simp]: "valid (n # s) (k # i) = (k < n \<and> valid s i)"
  by (simp add: valid_def)

lemma valid_append [simp]:
  "length i = length s \<Longrightarrow> valid (s @ s') (i @ i') = (valid s i \<and> valid s' i')"
  by (simp add: valid_def list_all2_append)

lemma bshape_rev_same [simp]: "bshape_rev xs xs = Some xs"
  by (induction xs) auto

lemma bshape_rev_Nil2 [simp]: "bshape_rev xs [] = Some xs"
  by (cases xs) auto

lemma bshape_rev_append:
  "length xs = length ys \<Longrightarrow>
   bshape_rev (xs @ ps) (ys @ qs) =
     (case bshape_rev xs ys of None \<Rightarrow> None
      | Some r \<Rightarrow> map_option ((@) r) (bshape_rev ps qs))"
proof (induction xs ys rule: list_induct2)
  case Nil
  show ?case by (cases "bshape_rev ps qs") simp_all
next
  case (Cons x xs y ys)
  then show ?case
    by (cases "bshape_rev ps qs") (auto split: option.splits)
qed

lemma bshape_rev_length:
  "bshape_rev xs ys = Some r \<Longrightarrow> length r = max (length xs) (length ys)"
  by (induction xs ys arbitrary: r rule: bshape_rev.induct) (auto split: if_splits)

lemma broadcast_append:
  assumes "length x = length y"
  shows "broadcast_shapes (p @ x) (q @ y) =
     (case broadcast_shapes x y of None \<Rightarrow> None
      | Some r \<Rightarrow> map_option (\<lambda>t. t @ r) (broadcast_shapes p q))"
  using assms
  by (cases "bshape_rev (rev q) (rev p)"; cases "bshape_rev (rev p) (rev q)")
     (auto simp: broadcast_shapes_def bshape_rev_append split: option.splits)

lemma broadcast_same [simp]: "broadcast_shapes s s = Some s"
  by (simp add: broadcast_shapes_def)

lemma broadcast_Nil1 [simp]: "broadcast_shapes [] s = Some s"
  by (simp add: broadcast_shapes_def)

lemma broadcast_Nil2 [simp]: "broadcast_shapes s [] = Some s"
  by (simp add: broadcast_shapes_def)

lemma broadcast_prefix1 [simp]: "broadcast_shapes (p @ s) s = Some (p @ s)"
  using broadcast_append [of s s p "[]"] by simp

lemma broadcast_prefix2 [simp]: "broadcast_shapes s (p @ s) = Some (p @ s)"
  using broadcast_append [of s s "[]" p] by simp

lemma broadcast_Cons_same:
  "broadcast_shapes [x] [x] = Some [x]" by simp

lemma broadcast_snoc:
  "broadcast_shapes (p @ [x]) (q @ [y]) =
    (if x = y \<or> y = 1 then map_option (\<lambda>t. t @ [x]) (broadcast_shapes p q)
     else if x = 1 then map_option (\<lambda>t. t @ [y]) (broadcast_shapes p q) else None)"
  by (cases "bshape_rev (rev p) (rev q)") (auto simp: broadcast_shapes_def)

lemma bcoord_less [simp]: "k < d \<Longrightarrow> bcoord d k = k"
  by (simp add: bcoord_def)

lemma bcoord_one [simp]: "bcoord (Suc 0) k = 0"
  by (simp add: bcoord_def)

lemma bidx_Nil [simp]: "bidx [] i = []"
  by (simp add: bidx_def)

lemma map2_bcoord_valid: "list_all2 (<) i s \<Longrightarrow> map2 bcoord s i = i"
  by (induction i s rule: list_all2_induct) auto

lemma bidx_valid [simp]: "valid s i \<Longrightarrow> bidx s i = i"
  using map2_bcoord_valid [of i s] by (simp add: valid_def bidx_def list_all2_lengthD)

lemma bidx_drop [simp]: "length s \<le> length i \<Longrightarrow> bidx s (l @ i) = bidx s i"
  by (simp add: bidx_def)

lemma bidx_drop_Cons [simp]: "length s \<le> length i \<Longrightarrow> bidx s (k # i) = bidx s i"
  using bidx_drop [of s i "[k]"] by simp

lemma bidx_append:
  "length s1 = length i1 \<Longrightarrow> length s2 = length i2 \<Longrightarrow>
   bidx (s1 @ s2) (i1 @ i2) = bidx s1 i1 @ bidx s2 i2"
  by (simp add: bidx_def)

lemma bidx_Cons [simp]:
  "length s = length i \<Longrightarrow> bidx (d # s) (k # i) = bcoord d k # bidx s i"
  by (simp add: bidx_def)

lemma axis_m1 [simp]: "0 < r \<Longrightarrow> axis r (- 1) = Some (r - 1)"
  by (auto simp: axis_def)

lemma axis_m2 [simp]: "2 \<le> r \<Longrightarrow> axis r (- 2) = Some (r - 2)"
  by (auto simp: axis_def)

lemma axis_m3 [simp]: "3 \<le> r \<Longrightarrow> axis r (- 3) = Some (r - 3)"
  by (auto simp: axis_def)

lemma bshape_rev_pad1:
  "length ys \<le> length xs \<Longrightarrow>
   bshape_rev (xs @ ps) ys = map_option (\<lambda>r. r @ ps) (bshape_rev xs ys)"
proof (induction xs arbitrary: ys)
  case Nil
  then show ?case by simp
next
  case (Cons x xs)
  show ?case
  proof (cases ys)
    case Nil
    then show ?thesis by simp
  next
    case (Cons y ys')
    with Cons.prems Cons.IH [of ys'] show ?thesis
      by (cases "bshape_rev xs ys'") auto
  qed
qed

lemma bshape_rev_pad2:
  "length xs \<le> length ys \<Longrightarrow>
   bshape_rev xs (ys @ ps) = map_option (\<lambda>r. r @ ps) (bshape_rev xs ys)"
proof (induction ys arbitrary: xs)
  case Nil
  then show ?case by simp
next
  case (Cons y ys)
  show ?case
  proof (cases xs)
    case Nil
    then show ?thesis by simp
  next
    case (Cons x xs')
    with Cons.prems Cons.IH [of xs'] show ?thesis
      by (cases "bshape_rev xs' ys") auto
  qed
qed

lemma bc_pre1:
  "length y \<le> length x \<Longrightarrow>
   broadcast_shapes (P @ x) y = map_option ((@) P) (broadcast_shapes x y)"
  by (cases "bshape_rev (rev x) (rev y)")
     (simp_all add: broadcast_shapes_def bshape_rev_pad1)

lemma bc_pre2:
  "length x \<le> length y \<Longrightarrow>
   broadcast_shapes x (P @ y) = map_option ((@) P) (broadcast_shapes x y)"
  by (cases "bshape_rev (rev x) (rev y)")
     (simp_all add: broadcast_shapes_def bshape_rev_pad2)

lemma bc_Cons1:
  "length ys \<le> length xs \<Longrightarrow>
   broadcast_shapes (x # xs) ys = map_option ((#) x) (broadcast_shapes xs ys)"
  using bc_pre1 [of ys xs "[x]"] by (cases "broadcast_shapes xs ys") simp_all

lemma bc_Cons2:
  "length xs \<le> length ys \<Longrightarrow>
   broadcast_shapes xs (y # ys) = map_option ((#) y) (broadcast_shapes xs ys)"
  using bc_pre2 [of xs ys "[y]"] by (cases "broadcast_shapes xs ys") simp_all

lemma bc_same:
  "length x = length y \<Longrightarrow>
   broadcast_shapes (P @ x) (P @ y) = map_option ((@) P) (broadcast_shapes x y)"
  using broadcast_append [of x y P P]
  by (cases "broadcast_shapes x y") auto

lemma bc_Cons_eq:
  "length xs = length ys \<Longrightarrow>
   broadcast_shapes (x # xs) (x # ys) = map_option ((#) x) (broadcast_shapes xs ys)"
  using broadcast_append [of xs ys "[x]" "[x]"]
  by (cases "broadcast_shapes xs ys") auto

lemma bc_Cons_one2:
  "length xs = length ys \<Longrightarrow>
   broadcast_shapes (x # xs) (Suc 0 # ys) = map_option ((#) x) (broadcast_shapes xs ys)"
  using broadcast_append [of xs ys "[x]" "[Suc 0]"]
  by (cases "broadcast_shapes xs ys") (auto simp: broadcast_shapes_def)

lemma bc_Cons_one1:
  "length xs = length ys \<Longrightarrow>
   broadcast_shapes (Suc 0 # xs) (y # ys) = map_option ((#) y) (broadcast_shapes xs ys)"
  using broadcast_append [of xs ys "[Suc 0]" "[y]"]
  by (cases "broadcast_shapes xs ys") (auto simp: broadcast_shapes_def)

lemmas bc = bc_pre1 bc_pre2 bc_same bc_Cons_eq bc_Cons_one1 bc_Cons_one2 bc_Cons1 bc_Cons2

lemma nth_append_ge [simp]:
  "length xs \<le> n \<Longrightarrow> (xs @ ys) ! n = ys ! (n - length xs)"
  by (simp add: nth_append)

lemma shape_bop_result [simp]: "shape (bop_result f a b s) = s"
  by (simp add: bop_result_def)

lemma elem_bop_result [simp]:
  "elem (bop_result f a b s) i = f (elem a (bidx (shape a) i)) (elem b (bidx (shape b) i))"
  by (simp add: bop_result_def)

lemma shape_tmap [simp]: "shape (tmap f t) = shape t"
  by (simp add: tmap_def)

lemma elem_tmap [simp]: "elem (tmap f t) i = f (elem t i)"
  by (simp add: tmap_def)

lemma shape_unsqueeze_at [simp]:
  "shape (unsqueeze_at t p) = take p (shape t) @ [1] @ drop p (shape t)"
  by (simp add: unsqueeze_at_def)

lemma elem_unsqueeze_at [simp]:
  "elem (unsqueeze_at t p) i = elem t (take p i @ drop (Suc p) i)"
  by (simp add: unsqueeze_at_def)

lemma shape_sum_at [simp]:
  "shape (sum_at t keepdim p) =
     take p (shape t) @ (if keepdim then [1] else []) @ drop (Suc p) (shape t)"
  by (simp add: sum_at_def)

lemma elem_sum_at [simp]:
  "elem (sum_at t keepdim p) i =
     (\<Sum>k = 0..<shape t ! p. elem t (take p i @ [k] @ drop (if keepdim then Suc p else p) i))"
  by (simp add: sum_at_def)

lemma shape_reduce_at [simp]:
  "shape (reduce_at m t keepdim p) =
     take p (shape t) @ (if keepdim then [1] else []) @ drop (Suc p) (shape t)"
  by (simp add: reduce_at_def)

lemma elem_reduce_at [simp]:
  "elem (reduce_at m t keepdim p) i =
     reduce m (\<lambda>k. elem t (take p i @ [k] @ drop (if keepdim then Suc p else p) i))
       (shape t ! p)"
  by (simp add: reduce_at_def)

lemma shape_transpose_result [simp]:
  "shape (transpose_result t) =
     take (rank t - 2) (shape t) @ [shape t ! (rank t - 1), shape t ! (rank t - 2)]"
  by (simp add: transpose_result_def Let_def)

lemma elem_transpose_result [simp]:
  "elem (transpose_result t) i =
     elem t (take (rank t - 2) i @ [i ! (rank t - 1), i ! (rank t - 2)])"
  by (simp add: transpose_result_def Let_def)

lemma shape_fill_result [simp]: "shape (fill_result t K v) = shape t"
  by (simp add: fill_result_def Let_def)

lemma elem_fill_result [simp]:
  "elem (fill_result t K v) i =
     (if i ! (rank t - 3) = i ! (rank t - 2) \<and> i ! (rank t - 2) < K then v else elem t i)"
  by (simp add: fill_result_def Let_def)

lemmas ops = unsqueeze_def rank_def bop_def iop_def sum_dim_def reduce_dim_def
  transpose_last_def fill_diagonals_def Let_def bc

lemma tilde_shape:
  assumes sh: "shape z = L @ B @ [D]" "shape scale = B @ [D]" "shape locs = B @ [K, D]"
  shows "\<exists>zt lt. bw_tilde z scale locs = Some (zt, lt) \<and> shape zt = L @ B @ [D]
      \<and> shape lt = B @ [K, D]"
  using sh by (simp add: bw_tilde_def ops)

lemma tilde_elem1:
  assumes sh: "shape z = L @ B @ [D]" "shape scale = B @ [D]" "shape locs = B @ [K, D]"
    and v: "valid L l" "valid B b" "i < D"
  shows "elem (fst (the (bw_tilde z scale locs))) (l @ b @ [i])
           = elem z (l @ b @ [i]) / elem scale (b @ [i])"
  using sh v valid_length [OF v(1)] valid_length [OF v(2)]
  by (simp add: bw_tilde_def ops bidx_append)

lemma tilde_elem2:
  assumes sh: "shape z = L @ B @ [D]" "shape scale = B @ [D]" "shape locs = B @ [K, D]"
    and v: "valid B b" "j < K" "i < D"
  shows "elem (snd (the (bw_tilde z scale locs))) (b @ [j, i])
           = elem locs (b @ [j, i]) / elem scale (b @ [i])"
  using sh v valid_length [OF v(1)]
  by (simp add: bw_tilde_def ops bidx_append)

lemma mu_ab_shape:
  assumes sh: "shape lt = B @ [K, D]"
  shows "\<exists>mu. bw_mu_ab lt K = Some mu \<and> shape mu = B @ [K, K, D]"
  using sh
  by (simp add: bw_mu_ab_def ops)

lemma mu_ab_elem:
  assumes sh: "shape lt = B @ [K, D]" and v: "valid B b" "p < K" "q < K" "i < D"
  shows "elem (the (bw_mu_ab lt K)) (b @ [p, q, i]) =
              (if p = q then Fin 0
               else (elem lt (b @ [p, i]) - elem lt (b @ [q, i]))
                    / fl_sqrt (\<Sum>i' = 0..<D. fl_pow2 (elem lt (b @ [p, i']) - elem lt (b @ [q, i']))))"
  using sh v valid_length [OF v(1)]
  by (simp add: bw_mu_ab_def ops bidx_append cong: sum.cong_simp)

lemma valid_idxs: "l \<in> set (idxs L) \<longleftrightarrow> valid L l"
proof (induction L arbitrary: l)
  case Nil
  show ?case by auto
next
  case step: (Cons n L)
  show ?case
  proof (cases l)
    case Nil
    then show ?thesis by (auto simp: valid_def)
  next
    case (Cons a l')
    then show ?thesis using step.IH [of l'] by (auto simp: image_iff)
  qed
qed

lemma set_idxs_iff [simp]: "l \<in> set (idxs L) \<longleftrightarrow> length l = length L \<and> valid L l"
  using valid_idxs [of l L] valid_length [of L l] by auto

lemma shape_sum_leftmost [simp]:
  "shape (sum_leftmost t d) =
     drop (if d < 0 then nat (int (rank t) + d) else nat d) (shape t)"
  by (simp add: sum_leftmost_def Let_def)

lemma elem_sum_leftmost [simp]:
  "elem (sum_leftmost t d) i =
     (\<Sum>l \<leftarrow> idxs (take (if d < 0 then nat (int (rank t) + d) else nat d) (shape t)).
         elem t (l @ i))"
  by (simp add: sum_leftmost_def Let_def)

lemma proj_shape:
  assumes sh: "shape zt = L @ B @ [D]" "shape lt = B @ [K, D]" "shape mu = B @ [K, K, D]"
  shows "\<exists>mll zll zps. bw_proj zt lt mu = Some (mll, zll, zps) \<and> shape mll = B @ [K, K]
      \<and> shape zll = L @ B @ [K, K] \<and> shape zps = L @ B @ [K, K]"
  using sh by (simp add: bw_proj_def ops)

lemma proj_elem1:
  assumes sh: "shape zt = L @ B @ [D]" "shape lt = B @ [K, D]" "shape mu = B @ [K, K, D]"
    and v: "valid B b" "p < K" "q < K"
  shows "elem (fst (the (bw_proj zt lt mu))) (b @ [p, q])
           = (\<Sum>i = 0..<D. elem lt (b @ [p, i]) * elem mu (b @ [p, q, i]))"
  using sh v valid_length [OF v(1)]
  by (simp add: bw_proj_def ops bidx_append cong: sum.cong_simp)

lemma proj_elem2:
  assumes sh: "shape zt = L @ B @ [D]" "shape lt = B @ [K, D]" "shape mu = B @ [K, K, D]"
    and v: "valid L l" "valid B b" "p < K" "q < K"
  shows "elem (fst (snd (the (bw_proj zt lt mu)))) (l @ b @ [p, q])
           = (\<Sum>i = 0..<D. elem zt (l @ b @ [i]) * elem mu (b @ [p, q, i]))"
  using sh v valid_length [OF v(1)] valid_length [OF v(2)]
  by (simp add: bw_proj_def ops bidx_append cong: sum.cong_simp)

lemma proj_elem3:
  assumes sh: "shape zt = L @ B @ [D]" "shape lt = B @ [K, D]" "shape mu = B @ [K, K, D]"
    and v: "valid L l" "valid B b" "p < K" "q < K"
  shows "elem (snd (snd (the (bw_proj zt lt mu)))) (l @ b @ [p, q])
           = (\<Sum>i = 0..<D. fl_pow2 (elem zt (l @ b @ [i])
                - (\<Sum>i' = 0..<D. elem zt (l @ b @ [i']) * elem mu (b @ [p, q, i']))
                  * elem mu (b @ [p, q, i])))"
  using sh v valid_length [OF v(1)] valid_length [OF v(2)]
  by (simp add: bw_proj_def ops bidx_append cong: sum.cong_simp)

lemma log_q_shape:
  assumes sh: "shape zt = L @ B @ [D]" "shape lt = B @ [K, D]"
  shows "\<exists>eps lq. bw_log_q zt lt = Some (eps, lq) \<and> shape eps = L @ B @ [K, D]
      \<and> shape lq = L @ B @ [K, 1]"
  using sh by (simp add: bw_log_q_def ops)

lemma log_q_elem1:
  assumes sh: "shape zt = L @ B @ [D]" "shape lt = B @ [K, D]"
    and v: "valid L l" "valid B b" "j < K" "i < D"
  shows "elem (fst (the (bw_log_q zt lt))) (l @ b @ [j, i])
           = elem zt (l @ b @ [i]) - elem lt (b @ [j, i])"
  using sh v valid_length [OF v(1)] valid_length [OF v(2)]
  by (simp add: bw_log_q_def ops bidx_append cong: sum.cong_simp)

lemma log_q_elem2:
  assumes sh: "shape zt = L @ B @ [D]" "shape lt = B @ [K, D]"
    and v: "valid L l" "valid B b" "j < K"
  shows "elem (snd (the (bw_log_q zt lt))) (l @ b @ [j, 0])
           = (\<Sum>i = 0..<D. Fin (- (1 / 2)) * fl_pow2 (elem zt (l @ b @ [i]) - elem lt (b @ [j, i])))"
  using sh v valid_length [OF v(1)] valid_length [OF v(2)]
  by (simp add: bw_log_q_def ops bidx_append cong: sum.cong_simp)

lemma q_prime_arg_shape:
  assumes sh: "shape lq = L @ B @ [K, 1]" and K: "0 < K"
  shows "\<exists>d. bw_q_prime_arg lq = Some d \<and> shape d = L @ B @ [K, 1]"
  using sh K by (simp add: bw_q_prime_arg_def ops)

lemma q_prime_arg_elem:
  assumes sh: "shape lq = L @ B @ [K, 1]" and K: "0 < K"
    and v: "valid L l" "valid B b" "j < K"
  shows "elem (the (bw_q_prime_arg lq)) (l @ b @ [j, 0])
           = elem lq (l @ b @ [j, 0]) - reduce fl_max (\<lambda>k. elem lq (l @ b @ [k, 0])) K"
  using sh K v valid_length [OF v(1)] valid_length [OF v(2)]
  by (simp add: bw_q_prime_arg_def ops bidx_append)

lemma q_tot_shape:
  assumes sh: "shape pis = B @ [K]" "shape qj = L @ B @ [K, 1]" "shape qjp = L @ B @ [K, 1]"
  shows "\<exists>qt qtp. bw_q_tot pis qj qjp = Some (qt, qtp) \<and> shape qt = L @ B @ [1]
      \<and> shape qtp = L @ B @ [1, 1]"
  using sh by (simp add: bw_q_tot_def ops)

lemma q_tot_elem1:
  assumes sh: "shape pis = B @ [K]" "shape qj = L @ B @ [K, 1]" "shape qjp = L @ B @ [K, 1]"
    and v: "valid L l" "valid B b"
  shows "elem (fst (the (bw_q_tot pis qj qjp))) (l @ b @ [0])
           = (\<Sum>j = 0..<K. elem pis (b @ [j]) * elem qj (l @ b @ [j, 0]))"
  using sh v valid_length [OF v(1)] valid_length [OF v(2)]
  by (simp add: bw_q_tot_def ops bidx_append cong: sum.cong_simp)

lemma q_tot_elem2:
  assumes sh: "shape pis = B @ [K]" "shape qj = L @ B @ [K, 1]" "shape qjp = L @ B @ [K, 1]"
    and v: "valid L l" "valid B b"
  shows "elem (snd (the (bw_q_tot pis qj qjp))) (l @ b @ [0, 0])
           = (\<Sum>j = 0..<K. elem pis (b @ [j]) * elem qjp (l @ b @ [j, 0]))"
  using sh v valid_length [OF v(1)] valid_length [OF v(2)]
  by (simp add: bw_q_tot_def ops bidx_append cong: sum.cong_simp)

lemma sum_list_cong_simp:
  "xs = ys \<Longrightarrow> (\<And>x. x \<in> set ys =simp=> f x = g x) \<Longrightarrow>
   sum_list (map f xs) = sum_list (map g ys)"
  unfolding simp_implies_def by (simp cong: map_cong)

lemma logits_grad_shape:
  assumes sh: "shape scale = B @ [D]" "shape pis = B @ [K]" "shape g = L @ B @ [D]"
    "shape mu = B @ [K, K, D]" "shape mll = B @ [K, K]" "shape zll = L @ B @ [K, K]"
    "shape zps = L @ B @ [K, K]" "shape qt = L @ B @ [1]"
  shows "\<exists>gg. bw_logits_grad scale pis g mu mll zll zps qt (int (length B)) = Some gg
      \<and> shape gg = B @ [K]"
  using sh by (simp add: bw_logits_grad_def ops)

lemma logits_grad_elem:
  assumes sh: "shape scale = B @ [D]" "shape pis = B @ [K]" "shape g = L @ B @ [D]"
    "shape mu = B @ [K, K, D]" "shape mll = B @ [K, K]" "shape zll = L @ B @ [K, K]"
    "shape zps = L @ B @ [K, K]" "shape qt = L @ B @ [1]"
    and v: "valid B b" "p < K"
  shows "elem (the (bw_logits_grad scale pis g mu mll zll zps qt (int (length B)))) (b @ [p])
     = elem pis (b @ [p])
       * (\<Sum>l \<leftarrow> idxs L.
           (\<Sum>q = 0..<K.
              (fl_erf ((elem zll (l @ b @ [p, q]) - elem mll (b @ [p, q])) / Fin (sqrt 2))
               - fl_erf ((elem zll (l @ b @ [p, q]) + elem mll (b @ [q, p])) / Fin (sqrt 2)))
              * fl_exp (Fin (- (1 / 2)) * elem zps (l @ b @ [p, q]))
              * (- (\<Sum>i = 0..<D. elem scale (b @ [i]) * elem g (l @ b @ [i])
                                  * elem mu (b @ [p, q, i]))
                 * elem pis (b @ [q])))
           / elem qt (l @ b @ [0]))
       * Fin (sqrt (1 / 2 * pi))"
  using sh v valid_length [OF v(1)]
  by (simp add: bw_logits_grad_def ops bidx_append cong: sum.cong_simp sum_list_cong_simp)

lemma locs_scale_grad_shape:
  assumes sh: "shape pis = B @ [K]" "shape g = L @ B @ [D]" "shape eps = L @ B @ [K, D]"
    "shape qjp = L @ B @ [K, 1]" "shape qtp = L @ B @ [1, 1]"
  shows "\<exists>gl gs. bw_locs_scale_grad pis g eps qjp qtp (int (length B)) = Some (gl, gs)
      \<and> shape gl = B @ [K, D] \<and> shape gs = B @ [D]"
  using sh by (simp add: bw_locs_scale_grad_def ops)

lemma locs_scale_grad_elem1:
  assumes sh: "shape pis = B @ [K]" "shape g = L @ B @ [D]" "shape eps = L @ B @ [K, D]"
    "shape qjp = L @ B @ [K, 1]" "shape qtp = L @ B @ [1, 1]"
    and v: "valid B b" "j < K" "i < D"
  shows "elem (fst (the (bw_locs_scale_grad pis g eps qjp qtp (int (length B))))) (b @ [j, i])
     = (\<Sum>l \<leftarrow> idxs L. elem pis (b @ [j]) * elem qjp (l @ b @ [j, 0]) * elem g (l @ b @ [i])
                          / elem qtp (l @ b @ [0, 0]))"
  using sh v valid_length [OF v(1)]
  by (simp add: bw_locs_scale_grad_def ops bidx_append cong: sum.cong_simp sum_list_cong_simp)

lemma locs_scale_grad_elem2:
  assumes sh: "shape pis = B @ [K]" "shape g = L @ B @ [D]" "shape eps = L @ B @ [K, D]"
    "shape qjp = L @ B @ [K, 1]" "shape qtp = L @ B @ [1, 1]"
    and v: "valid B b" "i < D"
  shows "elem (snd (the (bw_locs_scale_grad pis g eps qjp qtp (int (length B))))) (b @ [i])
     = (\<Sum>j = 0..<K. \<Sum>l \<leftarrow> idxs L.
          elem pis (b @ [j]) * elem qjp (l @ b @ [j, 0]) * elem g (l @ b @ [i])
            / elem qtp (l @ b @ [0, 0]) * elem eps (l @ b @ [j, i]))"
  using sh v valid_length [OF v(1)]
  by (simp add: bw_locs_scale_grad_def ops bidx_append cong: sum.cong_simp sum_list_cong_simp)

lemma fl_distrib: "Fin c * (u + v) = Fin c * u + Fin c * v"
  by (cases u; cases v) (auto simp: fl_inf_def distrib_left)

lemma fl_scale_sum: "Fin c * (\<Sum>i = 0..<(n::nat). f i) = (\<Sum>i = 0..<n. Fin c * f i)"
  by (induction n) (simp_all add: fl_distrib zero_fl_def)

lemma reduce_cong:
  assumes "0 < n" and "\<And>k. k < n \<Longrightarrow> f k = h k"
  shows "reduce m f n = reduce m h n"
proof -
  have tl: "map f [1..<n] = map h [1..<n]"
    using assms(2) by simp
  have hd: "f 0 = h 0"
    using assms by simp
  show ?thesis
    unfolding reduce_def tl hd by (rule refl)
qed

lemma backward_split:
  "backward ctx g = do {
     K \<leftarrow> size_at (sv_logits ctx) (- 1);
     (z_tilde, locs_tilde) \<leftarrow> bw_tilde (sv_z ctx) (sv_scale ctx) (sv_locs ctx);
     mu_ab \<leftarrow> bw_mu_ab locs_tilde K;
     (mu_ll_ab, z_ll_ab, z_perp_ab_sqr) \<leftarrow> bw_proj z_tilde locs_tilde mu_ab;
     (epsilons, log_q_j) \<leftarrow> bw_log_q z_tilde locs_tilde;
     d \<leftarrow> bw_q_prime_arg log_q_j;
     (q_tot, q_tot_prime) \<leftarrow> bw_q_tot (sv_pis ctx) (tmap fl_exp log_q_j) (tmap fl_exp d);
     logits_grad \<leftarrow> bw_logits_grad (sv_scale ctx) (sv_pis ctx) g mu_ab mu_ll_ab z_ll_ab
                      z_perp_ab_sqr q_tot (int (rank (sv_scale ctx)) - 1);
     (locs_grad, scale_grad) \<leftarrow> bw_locs_scale_grad (sv_pis ctx) g epsilons (tmap fl_exp d)
                      q_tot_prime (int (rank (sv_scale ctx)) - 1);
     Some (locs_grad, scale_grad, logits_grad)
   }"
  unfolding backward_def bw_tilde_def bw_mu_ab_def bw_proj_def bw_log_q_def bw_q_prime_arg_def
    bw_q_tot_def bw_logits_grad_def bw_locs_scale_grad_def Let_def
  by (simp split: Option.bind_split)

lemma backward_run:
  assumes wf: "wf_saved L B K D ctx g" and K: "0 < K"
  shows "\<exists>gl gs gg. backward ctx g = Some (gl, gs, gg)
     \<and> shape gl = B @ [K, D] \<and> shape gs = B @ [D] \<and> shape gg = B @ [K]
     \<and> (\<forall>b j i. valid B b \<longrightarrow> j < K \<longrightarrow> i < D \<longrightarrow>
           elem gl (b @ [j, i]) = f_grad_locs L K D ctx g b j i)
     \<and> (\<forall>b i. valid B b \<longrightarrow> i < D \<longrightarrow>
           elem gs (b @ [i]) =
             (\<Sum>j = 0..<K. \<Sum>l \<leftarrow> idxs L. f_prefactor K D ctx g l b j i * f_epsilon ctx l b j i))
     \<and> (\<forall>b p. valid B b \<longrightarrow> p < K \<longrightarrow>
           elem gg (b @ [p]) =
             elem (sv_pis ctx) (b @ [p])
             * (\<Sum>l \<leftarrow> idxs L. (\<Sum>q = 0..<K. logits_grad_at D ctx g l b p q)
                                / f_q_tot K D ctx l b)
             * Fin (sqrt (1 / 2 * pi)))"
proof -
  from wf have shz: "shape (sv_z ctx) = L @ B @ [D]" and shs: "shape (sv_scale ctx) = B @ [D]"
    and shl: "shape (sv_locs ctx) = B @ [K, D]" and sho: "shape (sv_logits ctx) = B @ [K]"
    and shp: "shape (sv_pis ctx) = B @ [K]" and shg: "shape g = L @ B @ [D]"
    by (simp_all add: wf_saved_def)
  have sz: "size_at (sv_logits ctx) (- 1) = Some K"
    by (simp add: size_at_def rank_def sho)
  have bd: "int (rank (sv_scale ctx)) - 1 = int (length B)"
    by (simp add: rank_def shs)
  obtain zt lt where t: "bw_tilde (sv_z ctx) (sv_scale ctx) (sv_locs ctx) = Some (zt, lt)"
      "shape zt = L @ B @ [D]" "shape lt = B @ [K, D]"
    using tilde_shape [OF shz shs shl] by blast
  have zt_e: "elem zt (l @ b @ [i]) = f_z_tilde ctx l b i"
    if "valid L l" "valid B b" "i < D" for l b i
    using tilde_elem1 [OF shz shs shl that] t(1) by (simp add: f_z_tilde_def)
  have lt_e: "elem lt (b @ [j, i]) = f_locs_tilde ctx b j i"
    if "valid B b" "j < K" "i < D" for b j i
    using tilde_elem2 [OF shz shs shl that] t(1) by (simp add: f_locs_tilde_def)
  obtain mu where m: "bw_mu_ab lt K = Some mu" "shape mu = B @ [K, K, D]"
    using mu_ab_shape [OF t(3)] by blast
  have mu_e: "elem mu (b @ [p, q, i]) = mu_ab_at D ctx b p q i"
    if "valid B b" "p < K" "q < K" "i < D" for b p q i
    using mu_ab_elem [OF t(3) that] m(1) that
    by (simp add: mu_ab_at_def lt_e cong: sum.cong_simp)
  obtain mll zll zps where pr: "bw_proj zt lt mu = Some (mll, zll, zps)"
      "shape mll = B @ [K, K]" "shape zll = L @ B @ [K, K]" "shape zps = L @ B @ [K, K]"
    using proj_shape [OF t(2) t(3) m(2)] by blast
  have mll_e: "elem mll (b @ [p, q]) = mu_ll_ab_at D ctx b p q"
    if "valid B b" "p < K" "q < K" for b p q
    using proj_elem1 [OF t(2) t(3) m(2) that] pr(1) that
    by (simp add: mu_ll_ab_at_def lt_e mu_e cong: sum.cong_simp)
  have zll_e: "elem zll (l @ b @ [p, q]) = z_ll_ab_at D ctx l b p q"
    if "valid L l" "valid B b" "p < K" "q < K" for l b p q
    using proj_elem2 [OF t(2) t(3) m(2) that] pr(1) that
    by (simp add: z_ll_ab_at_def zt_e mu_e cong: sum.cong_simp)
  have zps_e: "elem zps (l @ b @ [p, q]) = z_perp_ab_sqr_at D ctx l b p q"
    if "valid L l" "valid B b" "p < K" "q < K" for l b p q
    using proj_elem3 [OF t(2) t(3) m(2) that] pr(1) that
    by (simp add: z_perp_ab_sqr_at_def z_ll_ab_at_def zt_e mu_e cong: sum.cong_simp)
  obtain eps lq where lqs: "bw_log_q zt lt = Some (eps, lq)"
      "shape eps = L @ B @ [K, D]" "shape lq = L @ B @ [K, 1]"
    using log_q_shape [OF t(2) t(3)] by blast
  have eps_e: "elem eps (l @ b @ [j, i]) = f_epsilon ctx l b j i"
    if "valid L l" "valid B b" "j < K" "i < D" for l b j i
    using log_q_elem1 [OF t(2) t(3) that] lqs(1) that
    by (simp add: f_epsilon_def zt_e lt_e)
  have lq_e: "elem lq (l @ b @ [j, 0]) = f_log_q D ctx l b j"
    if "valid L l" "valid B b" "j < K" for l b j
    using log_q_elem2 [OF t(2) t(3) that] lqs(1) that
    by (simp add: f_log_q_def f_epsilon_def fl_scale_sum zt_e lt_e cong: sum.cong_simp)
  obtain d where dd: "bw_q_prime_arg lq = Some d" "shape d = L @ B @ [K, 1]"
    using q_prime_arg_shape [OF lqs(3) K] by blast
  have d_e: "elem d (l @ b @ [j, 0]) = f_log_q D ctx l b j - f_log_q_max K D ctx l b"
    if "valid L l" "valid B b" "j < K" for l b j
  proof -
    have "reduce fl_max (\<lambda>k. elem lq (l @ b @ [k, 0])) K
            = reduce fl_max (\<lambda>k. f_log_q D ctx l b k) K"
      using K that by (intro reduce_cong) (simp_all add: lq_e)
    with q_prime_arg_elem [OF lqs(3) K that] dd(1) that show ?thesis
      by (simp add: f_log_q_max_def lq_e)
  qed
  have shq: "shape (tmap fl_exp lq) = L @ B @ [K, 1]" "shape (tmap fl_exp d) = L @ B @ [K, 1]"
    using lqs(3) dd(2) by simp_all
  obtain qt qtp where q: "bw_q_tot (sv_pis ctx) (tmap fl_exp lq) (tmap fl_exp d) = Some (qt, qtp)"
      "shape qt = L @ B @ [1]" "shape qtp = L @ B @ [1, 1]"
    using q_tot_shape [OF shp shq] by blast
  have qt_e: "elem qt (l @ b @ [0]) = f_q_tot K D ctx l b"
    if "valid L l" "valid B b" for l b
    using q_tot_elem1 [OF shp shq that] q(1) that
    by (simp add: f_q_tot_def f_q_def lq_e cong: sum.cong_simp)
  have qtp_e: "elem qtp (l @ b @ [0, 0]) = f_q_tot_prime K D ctx l b"
    if "valid L l" "valid B b" for l b
    using q_tot_elem2 [OF shp shq that] q(1) that
    by (simp add: f_q_tot_prime_def f_q_prime_def d_e cong: sum.cong_simp)
  obtain gg where g1: "bw_logits_grad (sv_scale ctx) (sv_pis ctx) g mu mll zll zps qt
        (int (length B)) = Some gg" "shape gg = B @ [K]"
    using logits_grad_shape [OF shs shp shg m(2) pr(2) pr(3) pr(4) q(2)] by blast
  have gg_e: "elem gg (b @ [p]) =
             elem (sv_pis ctx) (b @ [p])
             * (\<Sum>l \<leftarrow> idxs L. (\<Sum>q = 0..<K. logits_grad_at D ctx g l b p q)
                                / f_q_tot K D ctx l b)
             * Fin (sqrt (1 / 2 * pi))"
    if "valid B b" "p < K" for b p
    using logits_grad_elem [OF shs shp shg m(2) pr(2) pr(3) pr(4) q(2) that] g1(1) that
    by (simp add: logits_grad_at_def mll_e zll_e zps_e mu_e qt_e mult.assoc
          cong: sum.cong_simp sum_list_cong_simp)
  obtain gl gs where g2: "bw_locs_scale_grad (sv_pis ctx) g eps (tmap fl_exp d) qtp
        (int (length B)) = Some (gl, gs)" "shape gl = B @ [K, D]" "shape gs = B @ [D]"
    using locs_scale_grad_shape [OF shp shg lqs(2) shq(2) q(3)] by blast
  have gl_e: "elem gl (b @ [j, i]) = f_grad_locs L K D ctx g b j i"
    if "valid B b" "j < K" "i < D" for b j i
    using locs_scale_grad_elem1 [OF shp shg lqs(2) shq(2) q(3) that] g2(1) that
    by (simp add: f_grad_locs_def f_prefactor_def f_q_prime_def d_e qtp_e
          cong: sum.cong_simp sum_list_cong_simp)
  have gs_e: "elem gs (b @ [i]) =
             (\<Sum>j = 0..<K. \<Sum>l \<leftarrow> idxs L. f_prefactor K D ctx g l b j i * f_epsilon ctx l b j i)"
    if "valid B b" "i < D" for b i
    using locs_scale_grad_elem2 [OF shp shg lqs(2) shq(2) q(3) that] g2(1) that
    by (simp add: f_prefactor_def f_q_prime_def d_e qtp_e eps_e
          cong: sum.cong_simp sum_list_cong_simp)
  have run: "backward ctx g = Some (gl, gs, gg)"
    by (simp add: backward_split sz t(1) m(1) pr(1) lqs(1) dd(1) q(1) bd g1(1) g2(1))
  show ?thesis
    using run g1(2) g2(2) g2(3) gl_e gs_e gg_e by blast
qed

lemma sum_list_sum_swap:
  "(\<Sum>j = 0..<(n::nat). \<Sum>l \<leftarrow> xs. (f l j :: fl)) = (\<Sum>l \<leftarrow> xs. \<Sum>j = 0..<n. f l j)"
  by (induction xs) (simp_all add: sum.distrib)

section \<open>The error function\<close>

lemma erf_series: "erf x = 2 / sqrt pi * (\<Sum>n. (- 1) ^ n * erf_coeff x n)"
  by (simp add: erf_def erf_coeff_def)

lemma erf_zero: "erf 0 = 0"
  by (simp add: erf_def)

lemma erf_coeff_dec:
  assumes "0 \<le> x" "x \<le> 1"
  shows "erf_coeff x (Suc n) \<le> erf_coeff x n"
proof -
  have p: "x ^ (2 * Suc n + 1) \<le> x ^ (2 * n + 1)"
    using assms by (intro power_decreasing) simp_all
  have d: "fact n * real (2 * n + 1) \<le> fact (Suc n) * real (2 * Suc n + 1)"
    by (intro mult_mono) (simp_all add: fact_mono)
  have pos: "0 < fact n * real (2 * n + 1)"
    by simp
  show ?thesis
    unfolding erf_coeff_def
    using assms by (intro frac_le p d pos) simp
qed

lemma erf_coeff_bound:
  assumes "0 \<le> x" "x \<le> 1"
  shows "erf_coeff x n \<le> inverse (real (Suc n))"
proof -
  have "x ^ (2 * n + 1) \<le> 1"
    using assms by (intro power_le_one)
  moreover have "real (Suc n) \<le> fact n * real (2 * n + 1)"
  proof -
    have "1 * real (Suc n) \<le> fact n * real (2 * n + 1)"
      by (intro mult_mono) simp_all
    then show ?thesis by simp
  qed
  ultimately have "x ^ (2 * n + 1) / (fact n * real (2 * n + 1)) \<le> 1 / real (Suc n)"
    using assms by (intro frac_le) simp_all
  then show ?thesis
    by (simp add: erf_coeff_def inverse_eq_divide)
qed

lemma erf_coeff_tendsto:
  assumes "0 \<le> x" "x \<le> 1"
  shows "erf_coeff x \<longlonglongrightarrow> 0"
proof (rule tendsto_sandwich [OF _ _ tendsto_const LIMSEQ_inverse_real_of_nat])
  show "\<forall>\<^sub>F n in sequentially. 0 \<le> erf_coeff x n"
    using assms by (intro always_eventually) (simp add: erf_coeff_def)
  show "\<forall>\<^sub>F n in sequentially. erf_coeff x n \<le> inverse (real (Suc n))"
    using erf_coeff_bound [OF assms] by (intro always_eventually) simp
qed

lemma erf_pos:
  assumes "0 < x" "x \<le> 1"
  shows "0 < erf x"
proof -
  have x0: "0 \<le> x" using assms by simp
  have dec: "decseq (erf_coeff x)"
    unfolding decseq_Suc_iff using erf_coeff_dec [OF x0 assms(2)] by blast
  have mono: "monoseq (erf_coeff x)"
    using dec by (rule decseq_imp_monoseq)
  have a0: "0 < erf_coeff x 0"
    using assms by (simp add: erf_coeff_def)
  have "\<forall>n. (\<Sum>i. (- 1) ^ i * erf_coeff x i)
            \<in> {\<Sum>i<2 * n. (- 1) ^ i * erf_coeff x i..\<Sum>i<2 * n + 1. (- 1) ^ i * erf_coeff x i}"
    using summable_Leibniz(2) [OF erf_coeff_tendsto [OF x0 assms(2)] mono] a0 by blast
  then have "(\<Sum>i. (- 1) ^ i * erf_coeff x i)
            \<in> {\<Sum>i<2 * 1. (- 1) ^ i * erf_coeff x i..\<Sum>i<2 * 1 + 1. (- 1) ^ i * erf_coeff x i}"
    by (rule spec)
  then have lb: "(\<Sum>i<Suc (Suc 0). (- 1) ^ i * erf_coeff x i) \<le> (\<Sum>i. (- 1) ^ i * erf_coeff x i)"
    by (simp add: numeral_2_eq_2)
  have s2: "(\<Sum>i<Suc (Suc 0). (- 1) ^ i * erf_coeff x i) = x - x ^ 3 / 3"
    by (simp add: erf_coeff_def power3_eq_cube power2_eq_square)
  have "x ^ 3 \<le> x ^ 1"
    using x0 assms(2) by (intro power_decreasing) simp_all
  then have "0 < x - x ^ 3 / 3"
    using assms(1) by simp
  with lb s2 have "0 < (\<Sum>i. (- 1) ^ i * erf_coeff x i)"
    by linarith
  then show ?thesis
    by (simp add: erf_series)
qed

section \<open>The small saved context, evaluated\<close>

lemma wf_ex: "wf_saved [] [] 2 1 ex_ctx ex_g"
  by (simp add: wf_saved_def ex_ctx_def ex_g_def tensor1_def tensor2_def)

lemmas ex_defs = ex_ctx_def ex_g_def tensor1_def tensor2_def

lemma ex_elems:
  "elem (sv_scale ex_ctx) [0] = Fin 1"
  "elem ex_g [0] = Fin 1"
  "elem (sv_pis ex_ctx) [0] = Fin (1 / 2)"
  "elem (sv_pis ex_ctx) [Suc 0] = Fin (1 / 2)"
  by (simp_all add: ex_defs)

lemma ex_tilde:
  "f_z_tilde ex_ctx [] [] 0 = Fin 0"
  "f_locs_tilde ex_ctx [] 0 0 = Fin 0"
  "f_locs_tilde ex_ctx [] (Suc 0) 0 = Fin 1"
  by (simp_all add: f_z_tilde_def f_locs_tilde_def ex_defs)

lemma ex_distinct: "distinct_means 2 1 ex_ctx []"
  by (simp add: distinct_means_def numeral_2_eq_2 atLeastLessThanSuc ex_tilde)

lemma ex_mu_ab:
  "mu_ab_at (Suc 0) ex_ctx [] p p 0 = Fin 0"
  "mu_ab_at (Suc 0) ex_ctx [] 0 (Suc 0) 0 = Fin (- 1)"
  "mu_ab_at (Suc 0) ex_ctx [] (Suc 0) 0 0 = Fin 1"
  by (simp_all add: mu_ab_at_def ex_tilde fl_pow2_def minus_fl_def)

lemma ex_mu_ll_ab:
  "mu_ll_ab_at (Suc 0) ex_ctx [] 0 (Suc 0) = Fin 0"
  "mu_ll_ab_at (Suc 0) ex_ctx [] (Suc 0) 0 = Fin 1"
  "mu_ll_ab_at (Suc 0) ex_ctx [] 0 0 = Fin 0"
  by (simp_all add: mu_ll_ab_at_def ex_tilde ex_mu_ab)

lemma ex_z_ll_ab:
  "z_ll_ab_at (Suc 0) ex_ctx [] [] 0 0 = Fin 0"
  "z_ll_ab_at (Suc 0) ex_ctx [] [] 0 (Suc 0) = Fin 0"
  by (simp_all add: z_ll_ab_at_def ex_tilde ex_mu_ab)

lemma ex_z_perp_ab_sqr:
  "z_perp_ab_sqr_at (Suc 0) ex_ctx [] [] 0 0 = Fin 0"
  "z_perp_ab_sqr_at (Suc 0) ex_ctx [] [] 0 (Suc 0) = Fin 0"
  by (simp_all add: z_perp_ab_sqr_at_def ex_z_ll_ab ex_tilde ex_mu_ab fl_pow2_def minus_fl_def)

lemma ex_logits_grad_at:
  "logits_grad_at (Suc 0) ex_ctx ex_g [] [] 0 0 = Fin 0"
  "logits_grad_at (Suc 0) ex_ctx ex_g [] [] 0 (Suc 0) = Fin (- erf (1 / sqrt 2) / 2)"
  by (simp_all add: logits_grad_at_def ex_mu_ll_ab ex_z_ll_ab ex_z_perp_ab_sqr ex_mu_ab
        minus_fl_def erf_zero ex_elems)

lemma ex_sep:
  "f_sep (Suc 0) ex_ctx [] 0 (Suc 0) = Fin 1"
  "f_sep (Suc 0) ex_ctx [] (Suc 0) 0 = Fin 1"
  by (simp_all add: f_sep_def ex_tilde fl_pow2_def minus_fl_def)

lemma ex_mu:
  "f_mu (Suc 0) ex_ctx [] p p 0 = Fin 0"
  "f_mu (Suc 0) ex_ctx [] 0 (Suc 0) 0 = Fin (- 1)"
  "f_mu (Suc 0) ex_ctx [] (Suc 0) 0 0 = Fin 1"
  by (simp_all add: f_mu_def ex_sep ex_tilde minus_fl_def)

lemma ex_mu_ll:
  "f_mu_ll (Suc 0) ex_ctx [] 0 (Suc 0) = Fin (- 1)"
  "f_mu_ll (Suc 0) ex_ctx [] (Suc 0) 0 = Fin 0"
  "f_mu_ll (Suc 0) ex_ctx [] 0 0 = Fin 0"
  by (simp_all add: f_mu_ll_def ex_tilde ex_mu)

lemma ex_z_ll:
  "f_z_ll (Suc 0) ex_ctx [] [] 0 0 = Fin 0"
  "f_z_ll (Suc 0) ex_ctx [] [] 0 (Suc 0) = Fin 0"
  by (simp_all add: f_z_ll_def ex_tilde ex_mu)

lemma ex_z_perp_sqr:
  "f_z_perp_sqr (Suc 0) ex_ctx [] [] 0 0 = Fin 0"
  "f_z_perp_sqr (Suc 0) ex_ctx [] [] 0 (Suc 0) = Fin 0"
  by (simp_all add: f_z_perp_sqr_def ex_z_ll ex_tilde ex_mu fl_pow2_def minus_fl_def)

lemma ex_q_tot: "f_q_tot 2 (Suc 0) ex_ctx [] [] = Fin (1 / 2 + exp (- (1 / 2)) / 2)"
  by (simp add: f_q_tot_def f_q_def f_log_q_def f_epsilon_def ex_tilde fl_pow2_def minus_fl_def
        numeral_2_eq_2 ex_elems)

lemma ex_term_spec:
  "f_term (f_mu_ll (Suc 0) ex_ctx) (Suc 0) ex_ctx ex_g [] [] 0 0 = Fin 0"
  "f_term (f_mu_ll (Suc 0) ex_ctx) (Suc 0) ex_ctx ex_g [] [] 0 (Suc 0)
     = Fin (erf (1 / sqrt 2) / 2)"
  by (simp_all add: f_term_def ex_mu_ll ex_z_ll ex_z_perp_sqr ex_mu minus_fl_def erf_zero ex_elems)

lemma erf_half_pos: "0 < erf (1 / sqrt 2)"
  by (rule erf_pos) simp_all

lemma ex_q_tot_pos: "0 < 1 / 2 + exp (- (1 / 2)) / (2::real)"
  by (simp add: add_pos_pos)

lemma Fin_neg_pos_neq: "a < 0 \<Longrightarrow> 0 < b \<Longrightarrow> Fin a \<noteq> Fin b"
  by simp

section \<open>Distinct means\<close>

lemma fl_add_Fin: "a + b = Fin r \<Longrightarrow> \<exists>x y. a = Fin x \<and> b = Fin y \<and> r = x + y"
  by (cases a; cases b; simp)

lemma fl_pow2_Fin: "fl_pow2 a = Fin r \<Longrightarrow> \<exists>x. a = Fin x \<and> r = x * x"
  by (cases a; simp add: fl_pow2_def)

lemma fl_sum_pow2_Fin:
  "(\<Sum>i = 0..<(n::nat). fl_pow2 (d i)) = Fin r \<Longrightarrow> 0 \<le> r \<and> (r = 0 \<longrightarrow> (\<forall>i<n. d i = Fin 0))"
proof (induction n arbitrary: r)
  case 0
  then show ?case
    by (simp add: zero_fl_def)
next
  case (Suc n)
  from Suc.prems obtain x y where
    s: "(\<Sum>i = 0..<n. fl_pow2 (d i)) = Fin x" and t: "fl_pow2 (d n) = Fin y" and r: "r = x + y"
    using fl_add_Fin [of "\<Sum>i = 0..<n. fl_pow2 (d i)" "fl_pow2 (d n)" r] by auto
  from fl_pow2_Fin [OF t] obtain u where u: "d n = Fin u" "y = u * u"
    by blast
  from Suc.IH [OF s] have x: "0 \<le> x" "x = 0 \<longrightarrow> (\<forall>i<n. d i = Fin 0)"
    by simp_all
  have y: "0 \<le> y"
    using u(2) by simp
  have "\<forall>i<Suc n. d i = Fin 0" if "r = 0"
  proof -
    from that r x(1) y have "x = 0" "y = 0"
      by linarith+
    with x(2) u show ?thesis
      by (simp add: less_Suc_eq)
  qed
  with x(1) y r show ?case
    by simp
qed

lemma fl_sqrt_zero: "fl_sqrt x = Fin 0 \<Longrightarrow> x = Fin 0"
  by (cases x) (simp_all split: if_splits)

lemma fl_diff_zero: "a - b = Fin 0 \<Longrightarrow> a = b"
  by (cases a; cases b; simp add: minus_fl_def)

lemma f_sep_zero:
  assumes "f_sep D ctx b p q = Fin 0" and "i < D"
  shows "f_locs_tilde ctx b p i = f_locs_tilde ctx b q i"
proof -
  from assms(1) have "(\<Sum>i = 0..<D. fl_pow2 (f_locs_tilde ctx b p i - f_locs_tilde ctx b q i)) = Fin 0"
    unfolding f_sep_def by (rule fl_sqrt_zero)
  from fl_sum_pow2_Fin [OF this] assms(2)
  have "f_locs_tilde ctx b p i - f_locs_tilde ctx b q i = Fin 0"
    by simp
  then show ?thesis
    by (rule fl_diff_zero)
qed

lemma distinct_sep:
  assumes "distinct_means K D ctx b" and "p < K" and "q < K" and "p \<noteq> q"
  shows "f_sep D ctx b p q \<noteq> Fin 0"
proof
  assume z: "f_sep D ctx b p q = Fin 0"
  have "p \<in> {0..<K}" "q \<in> {0..<K}"
    using assms(2,3) by simp_all
  with assms(1,4) have "\<exists>i \<in> {0..<D}. f_locs_tilde ctx b p i \<noteq> f_locs_tilde ctx b q i"
    unfolding distinct_means_def by blast
  then obtain i where "i < D" "f_locs_tilde ctx b p i \<noteq> f_locs_tilde ctx b q i"
    by auto
  with f_sep_zero [OF z] show False
    by blast
qed

lemma mu_ab_at_spec:
  assumes "distinct_means K D ctx b" and "p < K" and "q < K"
  shows "mu_ab_at D ctx b p q i = f_mu D ctx b p q i"
  using distinct_sep [OF assms] by (simp add: mu_ab_at_def f_mu_def f_sep_def)

lemma logits_grad_at_spec:
  assumes "distinct_means K D ctx b" and "p < K" and "q < K"
  shows "logits_grad_at D ctx g l b p q = f_term (f_mu_ll_ab D ctx) D ctx g l b p q"
  by (simp add: logits_grad_at_def f_term_def mu_ll_ab_at_def f_mu_ll_ab_def z_ll_ab_at_def
        f_z_ll_def z_perp_ab_sqr_at_def f_z_perp_sqr_def
        mu_ab_at_spec [OF assms] mu_ab_at_spec [OF assms(1) assms(3) assms(2)])

section \<open>The gradient of the logits\<close>

text \<open>
  C1: for a saved context with sample shape \<open>L\<close>, batch shape \<open>B\<close>, \<open>K > 0\<close> components and
  event dimension \<open>D\<close>, and an upstream gradient \<open>g\<close> of the shape of \<open>z\<close>, the backward pass
  returns, and at every batch index \<open>b\<close> where the normalized means of the components are
  pairwise distinct its third result is
  \<open>grad_logits[b,p] = weights[b,p] * sqrt(pi/2) * \<Sum>l. (\<Sum>q. term[l,b,p,q]) / q_tot[l,b]\<close>
  with \<open>term\<close>, \<open>mu\<close>, \<open>z_ll\<close>, \<open>z_perp_sqr\<close> and \<open>q_tot\<close> as the specification writes them,
  provided the projection in \<open>term\<close> is the one the source computes,
  \<open><locs~[p,:], mu[p,q,:]>\<close> (the first mean of the pair), in the place of the
  specification's \<open>mu_ll[p,q] = <locs~[q,:], mu[p,q,:]>\<close>.
\<close>

theorem backward_grad_logits:
  assumes "wf_saved L B K D ctx g" and "0 < K"
  shows "\<exists>gl gs gg. backward ctx g = Some (gl, gs, gg) \<and> shape gg = B @ [K]
     \<and> (\<forall>b p. valid B b \<longrightarrow> distinct_means K D ctx b \<longrightarrow> p < K \<longrightarrow>
           elem gg (b @ [p]) = f_grad_logits (f_mu_ll_ab D ctx) L K D ctx g b p)"
proof -
  from backward_run [OF assms] obtain gl gs gg where
    run: "backward ctx g = Some (gl, gs, gg)" and sh: "shape gg = B @ [K]"
    and gg: "\<And>b p. valid B b \<Longrightarrow> p < K \<Longrightarrow>
           elem gg (b @ [p]) =
             elem (sv_pis ctx) (b @ [p])
             * (\<Sum>l \<leftarrow> idxs L. (\<Sum>q = 0..<K. logits_grad_at D ctx g l b p q)
                   / f_q_tot K D ctx l b)
             * Fin (sqrt (1 / 2 * pi))"
    by blast
  have "elem gg (b @ [p]) = f_grad_logits (f_mu_ll_ab D ctx) L K D ctx g b p"
    if v: "valid B b" and d: "distinct_means K D ctx b" and p: "p < K" for b p
  proof -
    have "(\<Sum>q = 0..<K. logits_grad_at D ctx g l b p q)
            = (\<Sum>q = 0..<K. f_term (f_mu_ll_ab D ctx) D ctx g l b p q)" for l
      by (rule sum.cong) (simp_all add: logits_grad_at_spec [OF d p])
    then show ?thesis
      unfolding gg [OF v p] f_grad_logits_def by (simp add: mult.assoc mult.commute)
  qed
  with run sh show ?thesis
    by blast
qed

theorem backward_grad_logits_witness:
  "wf_saved [] [] 2 1 ex_ctx ex_g \<and> (0::nat) < 2 \<and> valid [] [] \<and> distinct_means 2 1 ex_ctx []
   \<and> (1::nat) < 2
   \<and> (\<exists>gl gs gg. backward ex_ctx ex_g = Some (gl, gs, gg) \<and> shape gg = [2]
        \<and> elem gg [1] = f_grad_logits (f_mu_ll_ab 1 ex_ctx) [] 2 1 ex_ctx ex_g [] 1)"
proof -
  have K: "(0::nat) < 2" by simp
  from backward_grad_logits [OF wf_ex K] obtain gl gs gg where
    run: "backward ex_ctx ex_g = Some (gl, gs, gg)" and sh: "shape gg = [] @ [2]"
    and gg: "\<forall>b p. valid [] b \<longrightarrow> distinct_means 2 1 ex_ctx b \<longrightarrow> p < 2 \<longrightarrow>
           elem gg (b @ [p]) = f_grad_logits (f_mu_ll_ab 1 ex_ctx) [] 2 1 ex_ctx ex_g b p"
    by blast
  from gg ex_distinct have "elem gg [1] = f_grad_logits (f_mu_ll_ab 1 ex_ctx) [] 2 1 ex_ctx ex_g [] 1"
    by simp
  then show ?thesis
    using run sh wf_ex ex_distinct by simp
qed

text \<open>
  C1, as the specification states it, with \<open>mu_ll[p,q] = <locs~[q,:], mu[p,q,:]>\<close>: for
  the two components with means 0 and 1 on the line, unit scale, equal weights, the sample
  \<open>z = 0\<close> and the upstream gradient 1, the first entry of the gradient of the logits that
  the backward pass returns is negative, and the stated formula gives its opposite.
\<close>

theorem backward_grad_logits_spec_counterexample:
  "backward ex_ctx ex_g \<noteq> None
   \<and> elem (snd (snd (the (backward ex_ctx ex_g)))) [0]
       \<noteq> f_grad_logits (f_mu_ll 1 ex_ctx) [] 2 1 ex_ctx ex_g [] 0"
proof -
  have K: "(0::nat) < 2" by simp
  from backward_run [OF wf_ex K] obtain gl gs gg where
    run: "backward ex_ctx ex_g = Some (gl, gs, gg)"
    and gg: "\<forall>b p. valid [] b \<longrightarrow> p < 2 \<longrightarrow> elem gg (b @ [p]) =
                elem (sv_pis ex_ctx) (b @ [p])
                * (\<Sum>l \<leftarrow> idxs []. (\<Sum>q = 0..<2. logits_grad_at 1 ex_ctx ex_g l b p q)
                      / f_q_tot 2 1 ex_ctx l b)
                * Fin (sqrt (1 / 2 * pi))"
    by blast
  from gg have "elem gg [0] = Fin (1 / 2)
      * (Fin (- erf (1 / sqrt 2) / 2) / Fin (1 / 2 + exp (- (1 / 2)) / 2)) * Fin (sqrt (1 / 2 * pi))"
    by (simp add: numeral_2_eq_2 ex_logits_grad_at ex_q_tot [unfolded numeral_2_eq_2] ex_elems)
  then have code: "elem gg [0]
      = Fin (1 / 2 * (- erf (1 / sqrt 2) / 2 / (1 / 2 + exp (- (1 / 2)) / 2)) * sqrt (1 / 2 * pi))"
    using ex_q_tot_pos by simp
  have spec: "f_grad_logits (f_mu_ll 1 ex_ctx) [] 2 1 ex_ctx ex_g [] 0
      = Fin (1 / 2 * sqrt (pi / 2) * (erf (1 / sqrt 2) / 2 / (1 / 2 + exp (- (1 / 2)) / 2)))"
    using ex_q_tot_pos
    by (simp add: f_grad_logits_def numeral_2_eq_2 ex_term_spec ex_q_tot [unfolded numeral_2_eq_2] ex_elems)
  have neg: "1 / 2 * (- erf (1 / sqrt 2) / 2 / (1 / 2 + exp (- (1 / 2)) / 2)) * sqrt (1 / 2 * pi) < 0"
    using erf_half_pos ex_q_tot_pos by (simp add: mult_less_0_iff zero_less_mult_iff divide_less_0_iff)
  have pos: "0 < 1 / 2 * sqrt (pi / 2) * (erf (1 / sqrt 2) / 2 / (1 / 2 + exp (- (1 / 2)) / 2))"
    using erf_half_pos ex_q_tot_pos by (simp add: zero_less_mult_iff zero_less_divide_iff)
  have "elem gg [0] \<noteq> f_grad_logits (f_mu_ll 1 ex_ctx) [] 2 1 ex_ctx ex_g [] 0"
    unfolding code spec by (rule Fin_neg_pos_neq [OF neg pos])
  with run show ?thesis
    by simp
qed

section \<open>Two components with the same mean\<close>

lemma fl_NaN [simp]:
  "NaN * x = NaN" "x * NaN = NaN" "NaN + x = NaN" "x + NaN = NaN"
  "NaN / x = NaN" "x / NaN = NaN" "- NaN = NaN" "NaN - x = NaN" "x - NaN = NaN"
  by (cases x; simp add: minus_fl_def)+

lemma wf_co: "wf_saved [] [] 2 1 co_ctx ex_g"
  by (simp add: wf_saved_def co_ctx_def ex_g_def tensor1_def tensor2_def)

lemma co_elems:
  "elem (sv_scale co_ctx) [0] = Fin 1"
  "elem (sv_pis co_ctx) [0] = Fin (1 / 2)"
  "elem (sv_pis co_ctx) [Suc 0] = Fin (1 / 2)"
  by (simp_all add: co_ctx_def tensor1_def)

lemma co_tilde:
  "f_z_tilde co_ctx [] [] 0 = Fin 0"
  "f_locs_tilde co_ctx [] 0 0 = Fin 0"
  "f_locs_tilde co_ctx [] (Suc 0) 0 = Fin 0"
  by (simp_all add: f_z_tilde_def f_locs_tilde_def co_ctx_def tensor1_def tensor2_def)

lemma co_mu_ab: "mu_ab_at (Suc 0) co_ctx [] 0 (Suc 0) 0 = NaN"
  by (simp add: mu_ab_at_def co_tilde fl_pow2_def minus_fl_def)

lemma co_logits_grad_at: "logits_grad_at (Suc 0) co_ctx ex_g [] [] 0 (Suc 0) = NaN"
  by (simp add: logits_grad_at_def co_mu_ab)

lemma co_mu:
  "f_mu (Suc 0) co_ctx [] 0 0 0 = Fin 0"
  "f_mu (Suc 0) co_ctx [] 0 (Suc 0) 0 = Fin 0"
  "f_mu (Suc 0) co_ctx [] (Suc 0) 0 0 = Fin 0"
  by (simp_all add: f_mu_def f_sep_def co_tilde fl_pow2_def minus_fl_def)

lemma co_proj:
  "f_mu_ll_ab (Suc 0) co_ctx [] 0 0 = Fin 0"
  "f_mu_ll_ab (Suc 0) co_ctx [] 0 (Suc 0) = Fin 0"
  "f_mu_ll_ab (Suc 0) co_ctx [] (Suc 0) 0 = Fin 0"
  "f_z_ll (Suc 0) co_ctx [] [] 0 0 = Fin 0"
  "f_z_ll (Suc 0) co_ctx [] [] 0 (Suc 0) = Fin 0"
  by (simp_all add: f_mu_ll_ab_def f_z_ll_def co_mu co_tilde)

lemma co_z_perp_sqr:
  "f_z_perp_sqr (Suc 0) co_ctx [] [] 0 0 = Fin 0"
  "f_z_perp_sqr (Suc 0) co_ctx [] [] 0 (Suc 0) = Fin 0"
  by (simp_all add: f_z_perp_sqr_def co_proj co_mu co_tilde fl_pow2_def minus_fl_def)

lemma co_term:
  "f_term (f_mu_ll_ab (Suc 0) co_ctx) (Suc 0) co_ctx ex_g [] [] 0 0 = Fin 0"
  "f_term (f_mu_ll_ab (Suc 0) co_ctx) (Suc 0) co_ctx ex_g [] [] 0 (Suc 0) = Fin 0"
  by (simp_all add: f_term_def co_proj co_z_perp_sqr co_mu co_elems ex_elems minus_fl_def erf_zero)

lemma co_q_tot: "f_q_tot 2 (Suc 0) co_ctx [] [] = Fin 1"
  by (simp add: f_q_tot_def f_q_def f_log_q_def f_epsilon_def co_tilde fl_pow2_def minus_fl_def
        numeral_2_eq_2 co_elems)

text \<open>
  C3: two components with the same mean 0 on the line, unit scale, equal weights, the
  sample \<open>z = 0\<close> and the upstream gradient 1. The backward pass returns, and the first
  entry of its gradient of the logits is \<open>NaN\<close>: the source sets only the diagonal of
  \<open>mu_ab\<close> to zero, so the direction of the pair \<open>(0, 1)\<close> is \<open>0/0\<close>. With the zero
  contribution that the specification gives to such a pair the entry is 0.
\<close>

theorem backward_coincident_means:
  "backward co_ctx ex_g \<noteq> None
   \<and> elem (snd (snd (the (backward co_ctx ex_g)))) [0] = NaN
   \<and> f_grad_logits (f_mu_ll_ab 1 co_ctx) [] 2 1 co_ctx ex_g [] 0 = Fin 0"
proof -
  have K: "(0::nat) < 2" by simp
  from backward_run [OF wf_co K] obtain gl gs gg where
    run: "backward co_ctx ex_g = Some (gl, gs, gg)"
    and gg: "\<forall>b p. valid [] b \<longrightarrow> p < 2 \<longrightarrow> elem gg (b @ [p]) =
                elem (sv_pis co_ctx) (b @ [p])
                * (\<Sum>l \<leftarrow> idxs []. (\<Sum>q = 0..<2. logits_grad_at 1 co_ctx ex_g l b p q)
                      / f_q_tot 2 1 co_ctx l b)
                * Fin (sqrt (1 / 2 * pi))"
    by blast
  from gg have code: "elem gg [0] = NaN"
    by (simp add: numeral_2_eq_2 co_logits_grad_at)
  have spec: "f_grad_logits (f_mu_ll_ab 1 co_ctx) [] 2 1 co_ctx ex_g [] 0 = Fin 0"
    by (simp add: f_grad_logits_def numeral_2_eq_2 co_term co_q_tot [unfolded numeral_2_eq_2]
          co_elems)
  from run code spec show ?thesis
    by simp
qed

section \<open>The gradients of the means and of the scale\<close>

text \<open>
  C2: for a saved context with sample shape \<open>L\<close>, batch shape \<open>B\<close>, \<open>K > 0\<close> components and
  event dimension \<open>D\<close>, and an upstream gradient \<open>g\<close> of the shape of \<open>z\<close>, the backward pass
  returns, and its first result is \<open>grad_locs[b,j,i] = \<Sum>l. prefactor[l,b,j,i]\<close> and its
  second \<open>grad_scale[b,i] = \<Sum>l. \<Sum>j. prefactor[l,b,j,i] * epsilon[l,b,j,i]\<close>, with
  \<open>epsilon\<close>, \<open>prefactor\<close>, \<open>q'\<close>, \<open>log_q\<close> and \<open>q_tot'\<close> as the specification defines them.
\<close>

theorem backward_grad_locs_scale:
  assumes "wf_saved L B K D ctx g" and "0 < K"
  shows "\<exists>gl gs gg. backward ctx g = Some (gl, gs, gg)
     \<and> (\<forall>b j i. valid B b \<longrightarrow> j < K \<longrightarrow> i < D \<longrightarrow>
           elem gl (b @ [j, i]) = f_grad_locs L K D ctx g b j i)
     \<and> (\<forall>b i. valid B b \<longrightarrow> i < D \<longrightarrow>
           elem gs (b @ [i]) = f_grad_scale L K D ctx g b i)"
proof -
  from backward_run [OF assms] obtain gl gs gg where
    run: "backward ctx g = Some (gl, gs, gg)"
    and gl: "\<And>b j i. valid B b \<Longrightarrow> j < K \<Longrightarrow> i < D \<Longrightarrow>
           elem gl (b @ [j, i]) = f_grad_locs L K D ctx g b j i"
    and gs: "\<And>b i. valid B b \<Longrightarrow> i < D \<Longrightarrow>
           elem gs (b @ [i]) =
             (\<Sum>j = 0..<K. \<Sum>l \<leftarrow> idxs L. f_prefactor K D ctx g l b j i * f_epsilon ctx l b j i)"
    by blast
  have "elem gs (b @ [i]) = f_grad_scale L K D ctx g b i" if "valid B b" "i < D" for b i
    using gs [OF that] by (simp add: f_grad_scale_def sum_list_sum_swap)
  with run gl show ?thesis
    by blast
qed

theorem backward_grad_locs_scale_witness:
  "wf_saved [] [] 2 1 ex_ctx ex_g \<and> (0::nat) < 2 \<and> valid [] [] \<and> (1::nat) < 2 \<and> (0::nat) < 1
   \<and> (\<exists>gl gs gg. backward ex_ctx ex_g = Some (gl, gs, gg)
        \<and> elem gl [1, 0] = f_grad_locs [] 2 1 ex_ctx ex_g [] 1 0
        \<and> elem gs [0] = f_grad_scale [] 2 1 ex_ctx ex_g [] 0)"
proof -
  have K: "(0::nat) < 2" by simp
  from backward_grad_locs_scale [OF wf_ex K] obtain gl gs gg where
    run: "backward ex_ctx ex_g = Some (gl, gs, gg)"
    and gl: "\<forall>b j i. valid [] b \<longrightarrow> j < 2 \<longrightarrow> i < 1 \<longrightarrow>
           elem gl (b @ [j, i]) = f_grad_locs [] 2 1 ex_ctx ex_g b j i"
    and gs: "\<forall>b i. valid [] b \<longrightarrow> i < 1 \<longrightarrow>
           elem gs (b @ [i]) = f_grad_scale [] 2 1 ex_ctx ex_g b i"
    by blast
  from gl have "elem gl [1, 0] = f_grad_locs [] 2 1 ex_ctx ex_g [] 1 0"
    by simp
  moreover from gs have "elem gs [0] = f_grad_scale [] 2 1 ex_ctx ex_g [] 0"
    by simp
  ultimately show ?thesis
    using run wf_ex by simp
qed

section \<open>The validation of the arguments\<close>

lemma check_all_iff: "check_all c t \<longleftrightarrow> (\<forall>i. valid (shape t) i \<longrightarrow> c (elem t i))"
  using valid_length by (auto simp: check_all_def list_all_iff)

lemma check_all_mono: "check_all c t \<Longrightarrow> (\<And>x. c x \<Longrightarrow> c' x) \<Longrightarrow> check_all c' t"
  by (simp add: check_all_iff)

lemma fl_finite_iff: "fl_finite x \<longleftrightarrow> (\<exists>a. x = Fin a)"
  by (cases x) (simp_all add: fl_finite_def)

lemma fl_finite_real: "fl_finite x \<Longrightarrow> constraint_real x"
  by (auto simp: fl_finite_iff constraint_real_def)

lemma fl_finite_pos_positive: "fl_finite_pos x \<Longrightarrow> constraint_positive x"
  by (cases x) (simp_all add: fl_finite_pos_def constraint_positive_def)

lemma valid_last_replace:
  assumes "valid s i" and "s \<noteq> []" and "k < last s"
  shows "valid s (butlast i @ [k])"
proof -
  from assms(2) obtain s' n where s: "s = s' @ [n]"
    by (cases s rule: rev_cases) auto
  from valid_length [OF assms(1)] s obtain i' m where i: "i = i' @ [m]"
    by (cases i rule: rev_cases) auto
  from valid_length [OF assms(1)] s i have "length i' = length s'"
    by simp
  with assms(1,3) s i show ?thesis
    by simp
qed

lemma valid_last_pos:
  assumes "valid s i" and "s \<noteq> []"
  shows "0 < last s"
proof -
  from assms(2) obtain s' n where s: "s = s' @ [n]"
    by (cases s rule: rev_cases) auto
  from valid_length [OF assms(1)] s obtain i' m where i: "i = i' @ [m]"
    by (cases i rule: rev_cases) auto
  from valid_length [OF assms(1)] s i have "length i' = length s'"
    by simp
  with assms(1) s i have "m < n"
    by simp
  with s show ?thesis
    by simp
qed

lemma sum_exp_finite:
  "(\<And>k. k < n \<Longrightarrow> fl_finite (f k))
     \<Longrightarrow> \<exists>r. (\<Sum>k = 0..<(n::nat). fl_exp (f k)) = Fin r \<and> 0 \<le> r \<and> (0 < n \<longrightarrow> 0 < r)"
proof (induction n)
  case 0
  show ?case
    by (simp add: zero_fl_def)
next
  case (Suc n)
  from Suc.IH Suc.prems obtain r where r: "(\<Sum>k = 0..<n. fl_exp (f k)) = Fin r" "0 \<le> r"
    by auto
  from Suc.prems [of n] obtain a where a: "f n = Fin a"
    by (auto simp: fl_finite_iff)
  have "0 < r + exp a"
    using r(2) by (simp add: add_nonneg_pos)
  with r(1) a show ?case
    by simp
qed

lemma categorical_logits_valid:
  assumes fin: "check_all fl_finite t" and ne: "shape t \<noteq> []"
  shows "check_all constraint_real (categorical_logits t)"
  unfolding check_all_iff
proof (intro allI impI)
  fix i
  assume "valid (shape (categorical_logits t)) i"
  then have v: "valid (shape t) i"
    by (simp add: categorical_logits_def)
  have "fl_finite (elem t (butlast i @ [k]))" if "k < last (shape t)" for k
    using fin valid_last_replace [OF v ne that] by (simp add: check_all_iff)
  from sum_exp_finite [of "last (shape t)" "\<lambda>k. elem t (butlast i @ [k])", OF this]
  obtain r where r: "(\<Sum>k = 0..<last (shape t). fl_exp (elem t (butlast i @ [k]))) = Fin r"
      "0 < last (shape t) \<longrightarrow> 0 < r"
    by auto
  from valid_last_pos [OF v ne] r(2) have "0 < r"
    by simp
  moreover from fin v obtain a where "elem t i = Fin a"
    by (auto simp: check_all_iff fl_finite_iff)
  ultimately show "constraint_real (elem (categorical_logits t) i)"
    using r(1) by (simp add: categorical_logits_def constraint_real_def minus_fl_def)
qed

section \<open>The shape errors of the constructor\<close>







section \<open>The forward pass with a sample shape and a batch shape\<close>

lemma two_shapes:
  "shape two_locs = [2, 1, 1]" "shape two_scale = [2, 1]" "shape two_which = [2, 2]"
  by (simp_all add: two_locs_def two_scale_def two_which_def)

lemma two_init: "\<exists>self. init two_locs two_scale two_logits = Inr self"
proof -
  have "check_all fl_finite two_logits"
    by (simp add: check_all_def two_logits_def fl_finite_def list_all_iff)
  then have "check_all constraint_real (categorical_logits two_logits)"
    by (rule categorical_logits_valid) (simp add: two_logits_def)
  moreover have "check_all constraint_real two_locs" "check_all constraint_positive two_scale"
      "check_all constraint_real two_logits"
    by (simp_all add: check_all_def two_locs_def two_scale_def two_logits_def constraint_real_def
          constraint_positive_def list_all_iff)
  moreover have "shape two_logits = [2, 1]"
    by (simp add: two_logits_def)
  ultimately show ?thesis
    by (simp add: init_def rank_def size_at_def axis_def py_assert_def py_validate_def
          sum_bind_def or_raise_def two_shapes)
qed

lemma two_forward:
  "forward two_locs two_scale two_logits two_pis two_which [2, 2, 1] two_noise
     = Some (bop_result (+) \<lparr>shape = [2, 2, 1], elem = (\<lambda>i. elem two_locs (i[1 := 0]))\<rparr>
               (bop_result (*) two_scale \<lparr>shape = [2, 2, 1], elem = two_noise\<rparr> [2, 2, 1])
               [2, 2, 1],
             \<lparr>sv_z = bop_result (+) \<lparr>shape = [2, 2, 1], elem = (\<lambda>i. elem two_locs (i[1 := 0]))\<rparr>
               (bop_result (*) two_scale \<lparr>shape = [2, 2, 1], elem = two_noise\<rparr> [2, 2, 1])
               [2, 2, 1],
              sv_scale = two_scale, sv_locs = two_locs, sv_logits = two_logits,
              sv_pis = two_pis\<rparr>)"
proof -
  let ?w = "unsqueeze_at two_which 2"
  let ?i = "\<lparr>shape = [2, 2, 1], elem = (\<lambda>i. elem ?w (bidx (shape ?w) i))\<rparr>"
  let ?g = "\<lparr>shape = [2, 2, 1], elem = (\<lambda>i. elem two_locs (i[1 := 0]))\<rparr>"
  let ?white = "\<lparr>shape = [2, 2, 1], elem = two_noise\<rparr>"
  let ?sw = "bop_result (*) two_scale ?white [2, 2, 1]"
  have dim: "size_at two_scale (- 1) = Some 1"
    by (simp add: size_at_def axis_def rank_def two_shapes)
  have w: "unsqueeze_last (nat (int (rank two_locs) - int (rank two_which))) two_which = Some ?w"
    by (simp add: unsqueeze_def axis_def rank_def two_shapes)
  have i: "expand ?w (butlast (shape ?w) @ [1]) = Some ?i"
    by (simp add: expand_def rank_def two_shapes unsqueeze_at_def)
  have "elem ?w j = 0" for j
    by (simp add: unsqueeze_at_def two_which_def)
  then have g: "gather two_locs (- 2) ?i = Some ?g"
    by (simp add: gather_def axis_def rank_def two_shapes list_ex_iff upt_rec)
  have s: "squeeze ?g (- 2) = Some ?g"
    by (simp add: squeeze_def squeeze_at_def axis_def rank_def)
  have sw: "bop (*) two_scale ?white = Some ?sw"
    by (simp add: bop_def broadcast_shapes_def two_shapes)
  have z: "bop (+) ?g ?sw = Some (bop_result (+) ?g ?sw [2, 2, 1])"
    by (simp add: bop_def broadcast_shapes_def bop_result_def)
  show ?thesis
    unfolding forward_def Let_def by (simp only: dim w i g s sw z bind.bind_lunit)
qed

text \<open>
  C7: two batches of one component on the line, with mean 10 in batch 0 and mean 20 in
  batch 1, two draws for each batch, every noise 0. The forward pass returns, and the
  sample of draw 0 in batch 1 is 10, the mean of batch 0; the mean of batch 1, which the
  specification's \<open>z[l,b,:] = locs[b, which[l,b], :] + scale[b,:] * white[l,b,:]\<close> gives,
  is 20.
\<close>

theorem forward_gathers_by_sample_index:
  "forward two_locs two_scale two_logits two_pis two_which [2, 2, 1] two_noise \<noteq> None
   \<and> elem (fst (the (forward two_locs two_scale two_logits two_pis two_which [2, 2, 1] two_noise)))
        [0, 1, 0] = Fin 10
   \<and> elem two_locs [1, elem two_which [0, 1], 0] + elem two_scale [1, 0] * two_noise [0, 1, 0]
        = Fin 20"
proof -
  have "elem (bop_result (+) \<lparr>shape = [2, 2, 1], elem = (\<lambda>i. elem two_locs (i[1 := 0]))\<rparr>
               (bop_result (*) two_scale \<lparr>shape = [2, 2, 1], elem = two_noise\<rparr> [2, 2, 1])
               [2, 2, 1]) [0, 1, 0] = Fin 10"
    by (simp add: bop_result_def bidx_def bcoord_def two_locs_def two_scale_def two_noise_def)
  moreover have "elem two_locs [1, elem two_which [0, 1], 0]
      + elem two_scale [1, 0] * two_noise [0, 1, 0] = Fin 20"
    by (simp add: two_locs_def two_scale_def two_which_def two_noise_def)
  ultimately show ?thesis
    by (simp only: two_forward option.sel fst_conv) simp
qed

section \<open>The density\<close>















lemma reduce_one: "reduce m f (Suc 0) = f 0"
  by (simp add: reduce_def)

lemma reduce_Suc: "0 < n \<Longrightarrow> reduce m f (Suc n) = m (reduce m f n) (f n)"
  by (simp add: reduce_def)






























section \<open>The stabilisation of the density\<close>



section \<open>The arguments of the exponentials of the backward pass\<close>

lemma fl_nneg_add: "\<not> fl_neg x \<Longrightarrow> \<not> fl_neg y \<Longrightarrow> \<not> fl_neg (x + y)"
  by (cases x; cases y) (auto simp: fl_neg_def)

lemma fl_neg_pow2: "\<not> fl_neg (fl_pow2 x)"
  by (cases x) (auto simp: fl_neg_def fl_pow2_def)

lemma fl_neg_sum_pow2: "\<not> fl_neg (\<Sum>i = 0..<(n::nat). fl_pow2 (h i))"
  by (induction n) (simp_all add: fl_nneg_add fl_neg_pow2, simp add: fl_neg_def zero_fl_def)

lemma fl_pos_half: "\<not> fl_neg x \<Longrightarrow> \<not> fl_pos (Fin (- (1 / 2)) * x)"
  by (cases x) (auto simp: fl_neg_def fl_pos_def fl_inf_def)

lemma fl_le_refl: "x \<noteq> NaN \<Longrightarrow> fl_le x x"
  by (cases x) simp_all

lemma fl_le_total: "x \<noteq> NaN \<Longrightarrow> y \<noteq> NaN \<Longrightarrow> \<not> fl_le x y \<Longrightarrow> fl_le y x"
  by (cases x; cases y) simp_all

lemma fl_le_trans: "fl_le x y \<Longrightarrow> fl_le y z \<Longrightarrow> fl_le x z"
  by (cases x; cases y; cases z) simp_all

lemma fl_max_NaN: "fl_max a b = NaN \<longleftrightarrow> a = NaN \<or> b = NaN"
  by (auto simp: fl_max_def)

lemma reduce_max_ub:
  "0 < n \<Longrightarrow> k < n \<Longrightarrow> reduce fl_max f n = NaN \<or> fl_le (f k) (reduce fl_max f n)"
proof (induction n)
  case 0
  then show ?case by simp
next
  case (Suc n)
  show ?case
  proof (cases "n = 0")
    case True
    with Suc.prems fl_le_refl [of "f 0"] show ?thesis
      by (auto simp: reduce_one)
  next
    case False
    then have n: "0 < n"
      by simp
    let ?a = "reduce fl_max f n"
    have r: "reduce fl_max f (Suc n) = fl_max ?a (f n)"
      using n by (rule reduce_Suc)
    show ?thesis
    proof (cases "?a = NaN \<or> f n = NaN")
      case True
      then show ?thesis
        by (simp add: r fl_max_NaN)
    next
      case nn: False
      then have mx: "fl_max ?a (f n) = (if fl_le ?a (f n) then f n else ?a)"
        by (simp add: fl_max_def)
      show ?thesis
      proof (cases "k < n")
        case True
        with Suc.IH [OF n] nn have le: "fl_le (f k) ?a"
          by simp
        show ?thesis
          unfolding r mx using le by (auto intro: fl_le_trans)
      next
        case False
        with Suc.prems have k: "k = n"
          by simp
        show ?thesis
          unfolding r mx k using nn by (auto intro: fl_le_refl fl_le_total)
      qed
    qed
  qed
qed

lemma fl_pos_diff: "fl_le x m \<Longrightarrow> \<not> fl_pos (x - m)"
  by (cases x; cases m) (auto simp: fl_pos_def minus_fl_def)

lemma fl_pos_diff_max:
  assumes "0 < n" and "k < n"
  shows "\<not> fl_pos (f k - reduce fl_max f n)"
proof (cases "reduce fl_max f n = NaN")
  case True
  then show ?thesis
    by (simp add: fl_pos_def)
next
  case False
  with reduce_max_ub [OF assms, of f] have "fl_le (f k) (reduce fl_max f n)"
    by simp
  then show ?thesis
    by (rule fl_pos_diff)
qed


lemma exp_args_run:
  assumes wf: "wf_saved L B K D ctx g" and K: "0 < K"
  shows "\<exists>d lq zp. backward_exp_args ctx = Some (d, lq, zp)
     \<and> (\<forall>l b j. valid L l \<longrightarrow> valid B b \<longrightarrow> j < K \<longrightarrow>
           elem d (l @ b @ [j, 0]) = f_log_q D ctx l b j - f_log_q_max K D ctx l b
         \<and> elem lq (l @ b @ [j, 0]) = f_log_q D ctx l b j)
     \<and> (\<forall>l b p q. valid L l \<longrightarrow> valid B b \<longrightarrow> p < K \<longrightarrow> q < K \<longrightarrow>
           elem zp (l @ b @ [p, q]) = Fin (- (1 / 2)) * z_perp_ab_sqr_at D ctx l b p q)"
proof -
  from wf have shz: "shape (sv_z ctx) = L @ B @ [D]" and shs: "shape (sv_scale ctx) = B @ [D]"
    and shl: "shape (sv_locs ctx) = B @ [K, D]" and sho: "shape (sv_logits ctx) = B @ [K]"
    by (simp_all add: wf_saved_def)
  have sz: "size_at (sv_logits ctx) (- 1) = Some K"
    by (simp add: size_at_def rank_def sho)
  obtain zt lt where t: "bw_tilde (sv_z ctx) (sv_scale ctx) (sv_locs ctx) = Some (zt, lt)"
      "shape zt = L @ B @ [D]" "shape lt = B @ [K, D]"
    using tilde_shape [OF shz shs shl] by blast
  have zt_e: "elem zt (l @ b @ [i]) = f_z_tilde ctx l b i"
    if "valid L l" "valid B b" "i < D" for l b i
    using tilde_elem1 [OF shz shs shl that] t(1) by (simp add: f_z_tilde_def)
  have lt_e: "elem lt (b @ [j, i]) = f_locs_tilde ctx b j i"
    if "valid B b" "j < K" "i < D" for b j i
    using tilde_elem2 [OF shz shs shl that] t(1) by (simp add: f_locs_tilde_def)
  obtain mu where m: "bw_mu_ab lt K = Some mu" "shape mu = B @ [K, K, D]"
    using mu_ab_shape [OF t(3)] by blast
  have mu_e: "elem mu (b @ [p, q, i]) = mu_ab_at D ctx b p q i"
    if "valid B b" "p < K" "q < K" "i < D" for b p q i
    using mu_ab_elem [OF t(3) that] m(1) that
    by (simp add: mu_ab_at_def lt_e cong: sum.cong_simp)
  obtain mll zll zps where pr: "bw_proj zt lt mu = Some (mll, zll, zps)"
    using proj_shape [OF t(2) t(3) m(2)] by blast
  have zps_e: "elem zps (l @ b @ [p, q]) = z_perp_ab_sqr_at D ctx l b p q"
    if "valid L l" "valid B b" "p < K" "q < K" for l b p q
    using proj_elem3 [OF t(2) t(3) m(2) that] pr(1) that
    by (simp add: z_perp_ab_sqr_at_def z_ll_ab_at_def zt_e mu_e cong: sum.cong_simp)
  obtain eps lq where lqs: "bw_log_q zt lt = Some (eps, lq)" "shape lq = L @ B @ [K, 1]"
    using log_q_shape [OF t(2) t(3)] by blast
  have lq_e: "elem lq (l @ b @ [j, 0]) = f_log_q D ctx l b j"
    if "valid L l" "valid B b" "j < K" for l b j
    using log_q_elem2 [OF t(2) t(3) that] lqs(1) that
    by (simp add: f_log_q_def f_epsilon_def fl_scale_sum zt_e lt_e cong: sum.cong_simp)
  obtain d where dd: "bw_q_prime_arg lq = Some d"
    using q_prime_arg_shape [OF lqs(2) K] by blast
  have d_e: "elem d (l @ b @ [j, 0]) = f_log_q D ctx l b j - f_log_q_max K D ctx l b"
    if "valid L l" "valid B b" "j < K" for l b j
  proof -
    have "reduce fl_max (\<lambda>k. elem lq (l @ b @ [k, 0])) K
            = reduce fl_max (\<lambda>k. f_log_q D ctx l b k) K"
      using K that by (intro reduce_cong) (simp_all add: lq_e)
    with q_prime_arg_elem [OF lqs(2) K that] dd(1) that show ?thesis
      by (simp add: f_log_q_max_def lq_e)
  qed
  have "backward_exp_args ctx
          = Some (d, lq, tmap (\<lambda>x. Fin (- (1 / 2)) * x) zps)"
    by (simp add: backward_exp_args_def sz t(1) m(1) pr lqs(1) dd)
  with d_e lq_e zps_e show ?thesis
    by simp
qed


lemma wf_sh: "wf_saved [] [] 2 1 sh_ctx ex_g"
  by (simp add: wf_saved_def sh_ctx_def ex_g_def tensor1_def tensor2_def)

lemma sh_log_q:
  "f_log_q (Suc 0) sh_ctx [] [] 0 = Fin (- (1 / 2))"
  "f_log_q (Suc 0) sh_ctx [] [] (Suc 0) = Fin (- 2)"
  "f_log_q_max 2 (Suc 0) sh_ctx [] [] = Fin (- (1 / 2))"
proof -
  show a: "f_log_q (Suc 0) sh_ctx [] [] 0 = Fin (- (1 / 2))"
    by (simp add: f_log_q_def f_epsilon_def f_z_tilde_def f_locs_tilde_def sh_ctx_def
          tensor1_def tensor2_def fl_pow2_def minus_fl_def)
  show b: "f_log_q (Suc 0) sh_ctx [] [] (Suc 0) = Fin (- 2)"
    by (simp add: f_log_q_def f_epsilon_def f_z_tilde_def f_locs_tilde_def sh_ctx_def
          tensor1_def tensor2_def fl_pow2_def minus_fl_def)
  show "f_log_q_max 2 (Suc 0) sh_ctx [] [] = Fin (- (1 / 2))"
    by (simp add: f_log_q_max_def reduce_def upt_rec a b fl_max_def)
qed

text \<open>
  C4: for a saved context with sample shape \<open>L\<close>, batch shape \<open>B\<close>, \<open>K > 0\<close> components and
  event dimension \<open>D\<close>, the backward pass hands three tensors to \<open>exp\<close>. The one of
  \<open>q_j_prime\<close> is \<open>log_q[l,b,j] - max_j log_q[l,b,j]\<close>, relative to the maximum at \<open>l, b\<close>.
  The one of \<open>q_j\<close> is \<open>log_q[l,b,j]\<close> itself, and the one of the factor of the gradient of
  the logits is \<open>-0.5 * z_perp_ab_sqr[l,b,p,q]\<close>: these two are not shifted. None of the
  three has a positive entry, so none of the exponentials overflows.
\<close>

theorem backward_exp_arguments:
  assumes "wf_saved L B K D ctx g" and "0 < K"
  shows "\<exists>d lq zp. backward_exp_args ctx = Some (d, lq, zp)
     \<and> (\<forall>l b j. valid L l \<longrightarrow> valid B b \<longrightarrow> j < K \<longrightarrow>
           elem d (l @ b @ [j, 0]) = f_log_q D ctx l b j - f_log_q_max K D ctx l b
         \<and> \<not> fl_pos (elem d (l @ b @ [j, 0]))
         \<and> elem lq (l @ b @ [j, 0]) = f_log_q D ctx l b j
         \<and> \<not> fl_pos (elem lq (l @ b @ [j, 0])))
     \<and> (\<forall>l b p q. valid L l \<longrightarrow> valid B b \<longrightarrow> p < K \<longrightarrow> q < K \<longrightarrow>
           elem zp (l @ b @ [p, q]) = Fin (- (1 / 2)) * z_perp_ab_sqr_at D ctx l b p q
         \<and> \<not> fl_pos (elem zp (l @ b @ [p, q])))"
proof -
  from exp_args_run [OF assms] obtain d lq zp where
    run: "backward_exp_args ctx = Some (d, lq, zp)"
    and dq: "\<And>l b j. valid L l \<Longrightarrow> valid B b \<Longrightarrow> j < K \<Longrightarrow>
           elem d (l @ b @ [j, 0]) = f_log_q D ctx l b j - f_log_q_max K D ctx l b
         \<and> elem lq (l @ b @ [j, 0]) = f_log_q D ctx l b j"
    and zp: "\<And>l b p q. valid L l \<Longrightarrow> valid B b \<Longrightarrow> p < K \<Longrightarrow> q < K \<Longrightarrow>
           elem zp (l @ b @ [p, q]) = Fin (- (1 / 2)) * z_perp_ab_sqr_at D ctx l b p q"
    by blast
  have q: "\<not> fl_pos (f_log_q D ctx l b j)" for l b j
    unfolding f_log_q_def by (rule fl_pos_half) (rule fl_neg_sum_pow2)
  have m: "\<not> fl_pos (f_log_q D ctx l b j - f_log_q_max K D ctx l b)" if "j < K" for l b j
    unfolding f_log_q_max_def using assms(2) that by (rule fl_pos_diff_max)
  have p: "\<not> fl_pos (Fin (- (1 / 2)) * z_perp_ab_sqr_at D ctx l b p q)" for l b p q
    unfolding z_perp_ab_sqr_at_def by (rule fl_pos_half) (rule fl_neg_sum_pow2)
  from run dq zp q m p show ?thesis
    by auto
qed

theorem backward_exp_arguments_witness:
  "wf_saved [] [] 2 1 sh_ctx ex_g \<and> (0::nat) < 2 \<and> valid [] [] \<and> (1::nat) < 2
   \<and> (\<exists>d lq zp. backward_exp_args sh_ctx = Some (d, lq, zp)
         \<and> elem d [1, 0] = Fin (- (3 / 2)) \<and> \<not> fl_pos (elem d [1, 0])
         \<and> elem lq [1, 0] = Fin (- 2) \<and> \<not> fl_pos (elem lq [1, 0])
         \<and> \<not> fl_pos (elem zp [1, 0]))"
proof -
  have K: "(0::nat) < 2"
    by simp
  from backward_exp_arguments [OF wf_sh K] obtain d lq zp where
    run: "backward_exp_args sh_ctx = Some (d, lq, zp)"
    and dq: "\<forall>l b j. valid [] l \<longrightarrow> valid [] b \<longrightarrow> j < 2 \<longrightarrow>
           elem d (l @ b @ [j, 0]) = f_log_q 1 sh_ctx l b j - f_log_q_max 2 1 sh_ctx l b
         \<and> \<not> fl_pos (elem d (l @ b @ [j, 0]))
         \<and> elem lq (l @ b @ [j, 0]) = f_log_q 1 sh_ctx l b j
         \<and> \<not> fl_pos (elem lq (l @ b @ [j, 0]))"
    and zp: "\<forall>l b p q. valid [] l \<longrightarrow> valid [] b \<longrightarrow> p < 2 \<longrightarrow> q < 2 \<longrightarrow>
           elem zp (l @ b @ [p, q]) = Fin (- (1 / 2)) * z_perp_ab_sqr_at 1 sh_ctx l b p q
         \<and> \<not> fl_pos (elem zp (l @ b @ [p, q]))"
    by blast
  from dq have "elem d [1, 0] = Fin (- (3 / 2))" "\<not> fl_pos (elem d [1, 0])"
      "elem lq [1, 0] = Fin (- 2)" "\<not> fl_pos (elem lq [1, 0])"
    by (simp_all add: sh_log_q minus_fl_def fl_pos_def)
  moreover have "\<not> fl_pos (elem zp [1, 0])"
  proof -
    have v: "valid [] []" and p: "(1::nat) < 2"
      by simp_all
    from zp [rule_format, OF v v p K] have "\<not> fl_pos (elem zp ([] @ [] @ [1, 0]))"
      by (rule conjunct2)
    then show ?thesis
      by simp
  qed
  ultimately show ?thesis
    using run wf_sh by simp
qed

text \<open>
  C4, as the specification states it, with every exponential relative to the maximum: for
  two components with means 1 and 2 on the line, unit scale and the sample \<open>z = 0\<close>, the
  backward pass hands \<open>-1/2\<close> and \<open>-2\<close> to the exponential of \<open>q_j\<close>. These are the exponents
  themselves; relative to their maximum \<open>-1/2\<close> they are 0 and \<open>-3/2\<close>.
\<close>

theorem backward_exp_unshifted_counterexample:
  "backward_exp_args sh_ctx \<noteq> None
   \<and> elem (fst (snd (the (backward_exp_args sh_ctx)))) [0, 0] = Fin (- (1 / 2))
   \<and> elem (fst (snd (the (backward_exp_args sh_ctx)))) [1, 0] = Fin (- 2)
   \<and> f_log_q 1 sh_ctx [] [] 0 - f_log_q_max 2 1 sh_ctx [] [] = Fin 0
   \<and> f_log_q 1 sh_ctx [] [] 1 - f_log_q_max 2 1 sh_ctx [] [] = Fin (- (3 / 2))"
proof -
  have K: "(0::nat) < 2"
    by simp
  from exp_args_run [OF wf_sh K] obtain d lq zp where
    run: "backward_exp_args sh_ctx = Some (d, lq, zp)"
    and dq: "\<forall>l b j. valid [] l \<longrightarrow> valid [] b \<longrightarrow> j < 2 \<longrightarrow>
           elem d (l @ b @ [j, 0]) = f_log_q 1 sh_ctx l b j - f_log_q_max 2 1 sh_ctx l b
         \<and> elem lq (l @ b @ [j, 0]) = f_log_q 1 sh_ctx l b j"
    by blast
  from dq have "elem lq [0, 0] = Fin (- (1 / 2))" "elem lq [1, 0] = Fin (- 2)"
    by (simp_all add: sh_log_q)
  with run show ?thesis
    by (simp add: sh_log_q minus_fl_def)
qed

section \<open>Construction without a check of the scale's length\<close>

text \<open>
  C10: for a 2-dimensional \<open>locs\<close> of shape \<open>[K, D]\<close>, a 1-dimensional \<open>scale\<close> of any
  length \<open>n\<close> (equal to \<open>D\<close> or not) and a 1-dimensional \<open>logits\<close> of length \<open>K\<close>, whose
  entries the validation of the arguments accepts (finite means and logits, finite
  positive scales), the constructor raises nothing, and the event shape is \<open>[D]\<close>, read
  from \<open>locs\<close> alone.
\<close>

theorem init_ignores_scale_length:
  assumes "check_all fl_finite \<lparr>shape = [K, D], elem = f\<rparr>"
    and "check_all fl_finite_pos \<lparr>shape = [n], elem = g\<rparr>"
    and "check_all fl_finite \<lparr>shape = [K], elem = h\<rparr>"
  shows "\<exists>self. init \<lparr>shape = [K, D], elem = f\<rparr> \<lparr>shape = [n], elem = g\<rparr> \<lparr>shape = [K], elem = h\<rparr>
            = Inr self
          \<and> event_shape self = [D] \<and> batch_shape self = [] \<and> self_dim self = D"
proof -
  have "check_all constraint_real (categorical_logits \<lparr>shape = [K], elem = h\<rparr>)"
    using assms(3) by (rule categorical_logits_valid) simp
  moreover have "check_all constraint_real \<lparr>shape = [K, D], elem = f\<rparr>"
    using assms(1) fl_finite_real by (rule check_all_mono)
  moreover have "check_all constraint_positive \<lparr>shape = [n], elem = g\<rparr>"
    using assms(2) fl_finite_pos_positive by (rule check_all_mono)
  moreover have "check_all constraint_real \<lparr>shape = [K], elem = h\<rparr>"
    using assms(3) fl_finite_real by (rule check_all_mono)
  ultimately show ?thesis
    by (simp add: init_def rank_def size_at_def axis_def py_assert_def py_validate_def
          sum_bind_def or_raise_def)
qed

theorem init_ignores_scale_length_witness:
  "check_all fl_finite (tensor2 [[Fin 0], [Fin 1]])
   \<and> check_all fl_finite_pos (tensor1 [Fin 1, Fin 2, Fin 3])
   \<and> check_all fl_finite (tensor1 [Fin 0, Fin 0])
   \<and> (\<exists>self. init (tensor2 [[Fin 0], [Fin 1]]) (tensor1 [Fin 1, Fin 2, Fin 3])
                 (tensor1 [Fin 0, Fin 0]) = Inr self
          \<and> event_shape self = [1] \<and> batch_shape self = [] \<and> self_dim self = 1)"
proof -
  let ?locs = "tensor2 [[Fin 0], [Fin 1]]"
  let ?scale = "tensor1 [Fin 1, Fin 2, Fin 3]"
  let ?logits = "tensor1 [Fin 0, Fin 0]"
  have l: "\<lparr>shape = [2, 1], elem = elem ?locs\<rparr> = ?locs"
    by (simp add: tensor2_def)
  have s: "\<lparr>shape = [3], elem = elem ?scale\<rparr> = ?scale"
    by (simp add: tensor1_def)
  have g: "\<lparr>shape = [2], elem = elem ?logits\<rparr> = ?logits"
    by (simp add: tensor1_def)
  have a: "check_all fl_finite ?locs"
    by (simp add: check_all_def tensor2_def fl_finite_def upt_rec)
  have b: "check_all fl_finite_pos ?scale"
    by (simp add: check_all_def tensor1_def fl_finite_pos_def upt_rec)
  have c: "check_all fl_finite ?logits"
    by (simp add: check_all_def tensor1_def fl_finite_def upt_rec)
  note init_ignores_scale_length [of 2 1 "elem ?locs" 3 "elem ?scale" "elem ?logits",
      unfolded l s g, OF a b c]
  with a b c show ?thesis
    by (intro conjI)
qed

end
